theory Spec2Isabelle
  imports Complex_Main "HOL-Library.Monad_Syntax"
begin

section \<open>The host platform\<close>

text \<open>
  The library is TypeScript on top of the ECMAScript built-ins \<^verbatim>\<open>Date\<close>,
  \<^verbatim>\<open>String\<close>, \<^verbatim>\<open>RegExp\<close> and \<^verbatim>\<open>parseInt\<close>. This section
  models the part of these built-ins the library calls, following the ECMAScript language
  specification (section "Date Objects") function by function.

  Modelling decisions:
  \<^item> A JavaScript number is an \<open>int option\<close>: \<open>None\<close> is \<open>NaN\<close>. All numbers the
    library computes with are integers, and the model computes with them exactly. The
    program computes in binary64, which is exact as long as every value stays within
    \<open>2^53\<close>; beyond that the program rounds and the model does not, so every theorem
    whose statement depends on such a value carries the bound as a hypothesis.
  \<^item> A \<^verbatim>\<open>Date\<close> object is its time value: milliseconds since the epoch, or \<open>NaN\<close>
    for an Invalid Date. The library never shares a mutated object, so every
    \<^verbatim>\<open>setX\<close> method is a function returning the updated object.
  \<^item> The host environment is a record: the offset of local time from UTC as ECMAScript's
    \<^verbatim>\<open>LocalTZA(t, isUTC)\<close> (a function of the time, so that daylight-saving
    transitions are hosts of the model), the reading of the system clock and the
    implementation-defined \<^verbatim>\<open>Date.parse\<close>.
  \<^item> A string is a list of 8-bit characters (the Latin-1 range of UTF-16 code units).
\<close>

subsection \<open>Numbers\<close>

type_synonym number = "int option"

definition nplus :: "number \<Rightarrow> number \<Rightarrow> number" where
  "nplus a b = (case a of None \<Rightarrow> None | Some x \<Rightarrow> (case b of None \<Rightarrow> None | Some y \<Rightarrow> Some (x + y)))"

definition nminus :: "number \<Rightarrow> number \<Rightarrow> number" where
  "nminus a b = (case a of None \<Rightarrow> None | Some x \<Rightarrow> (case b of None \<Rightarrow> None | Some y \<Rightarrow> Some (x - y)))"

definition ntimes :: "number \<Rightarrow> number \<Rightarrow> number" where
  "ntimes a b = (case a of None \<Rightarrow> None | Some x \<Rightarrow> (case b of None \<Rightarrow> None | Some y \<Rightarrow> Some (x * y)))"

definition nneg :: "number \<Rightarrow> number" where
  "nneg a = (case a of None \<Rightarrow> None | Some x \<Rightarrow> Some (- x))"

text \<open>Comparisons with \<open>NaN\<close> are false.\<close>

definition nless :: "number \<Rightarrow> number \<Rightarrow> bool" where
  "nless a b = (case a of None \<Rightarrow> False | Some x \<Rightarrow> (case b of None \<Rightarrow> False | Some y \<Rightarrow> x < y))"

definition nle :: "number \<Rightarrow> number \<Rightarrow> bool" where
  "nle a b = (case a of None \<Rightarrow> False | Some x \<Rightarrow> (case b of None \<Rightarrow> False | Some y \<Rightarrow> x \<le> y))"

text \<open>\<^verbatim>\<open>Math.floor(x / k)\<close> for an integer \<open>x\<close> and a positive integer constant \<open>k\<close>.\<close>

definition floorDiv :: "number \<Rightarrow> int \<Rightarrow> number" where
  "floorDiv a k = (case a of None \<Rightarrow> None | Some x \<Rightarrow> Some (x div k))"

subsection \<open>Time values and the calendar (ECMAScript "Time Values and Time Range" onwards)\<close>

definition msPerDay :: int where "msPerDay = 86400000"
definition msPerHour :: int where "msPerHour = 3600000"
definition msPerMinute :: int where "msPerMinute = 60000"
definition msPerSecond :: int where "msPerSecond = 1000"

definition Day :: "int \<Rightarrow> int" where
  "Day t = t div msPerDay"

definition TimeWithinDay :: "int \<Rightarrow> int" where
  "TimeWithinDay t = t mod msPerDay"

definition DaysInYear :: "int \<Rightarrow> int" where
  "DaysInYear y =
     (if y mod 4 \<noteq> 0 then 365
      else if y mod 100 \<noteq> 0 then 366
      else if y mod 400 \<noteq> 0 then 365
      else 366)"

definition DayFromYear :: "int \<Rightarrow> int" where
  "DayFromYear y =
     365 * (y - 1970) + (y - 1969) div 4 - (y - 1901) div 100 + (y - 1601) div 400"

text \<open>
  ECMAScript defines \<^verbatim>\<open>YearFromTime(t)\<close> as the largest \<open>y\<close> whose first day is not
  after \<open>t\<close>. The executable form estimates the year from the mean length of a Gregorian
  year (146097 days in 400 years) and corrects the estimate by at most one; lemma
  \<open>YearFromDay_unique\<close> below shows that it is the year of the ECMAScript definition.
\<close>

definition YearFromDay :: "int \<Rightarrow> int" where
  "YearFromDay d =
     (let y0 = 1970 + (400 * d) div 146097
      in if d < DayFromYear y0 then y0 - 1
         else if DayFromYear (y0 + 1) \<le> d then y0 + 1
         else y0)"

definition YearFromTime :: "int \<Rightarrow> int" where
  "YearFromTime t = YearFromDay (Day t)"

definition InLeapYear :: "int \<Rightarrow> int" where
  "InLeapYear t = (if DaysInYear (YearFromTime t) = 366 then 1 else 0)"

definition DayWithinYear :: "int \<Rightarrow> int" where
  "DayWithinYear t = Day t - DayFromYear (YearFromTime t)"

definition MonthFromTime :: "int \<Rightarrow> int" where
  "MonthFromTime t =
     (let d = DayWithinYear t; l = InLeapYear t
      in if d < 31 then 0
         else if d < 59 + l then 1
         else if d < 90 + l then 2
         else if d < 120 + l then 3
         else if d < 151 + l then 4
         else if d < 181 + l then 5
         else if d < 212 + l then 6
         else if d < 243 + l then 7
         else if d < 273 + l then 8
         else if d < 304 + l then 9
         else if d < 334 + l then 10
         else 11)"

definition DateFromTime :: "int \<Rightarrow> int" where
  "DateFromTime t =
     (let d = DayWithinYear t; l = InLeapYear t; m = MonthFromTime t
      in if m = 0 then d + 1
         else if m = 1 then d - 30
         else if m = 2 then d - 58 - l
         else if m = 3 then d - 89 - l
         else if m = 4 then d - 119 - l
         else if m = 5 then d - 150 - l
         else if m = 6 then d - 180 - l
         else if m = 7 then d - 211 - l
         else if m = 8 then d - 242 - l
         else if m = 9 then d - 272 - l
         else if m = 10 then d - 303 - l
         else d - 333 - l)"

definition WeekDay :: "int \<Rightarrow> int" where
  "WeekDay t = (Day t + 4) mod 7"

definition HourFromTime :: "int \<Rightarrow> int" where
  "HourFromTime t = (t div msPerHour) mod 24"

definition MinFromTime :: "int \<Rightarrow> int" where
  "MinFromTime t = (t div msPerMinute) mod 60"

definition SecFromTime :: "int \<Rightarrow> int" where
  "SecFromTime t = (t div msPerSecond) mod 60"

definition msFromTime :: "int \<Rightarrow> int" where
  "msFromTime t = t mod msPerSecond"

definition MakeTime :: "int \<Rightarrow> int \<Rightarrow> int \<Rightarrow> int \<Rightarrow> int" where
  "MakeTime hour minute sec ms = hour * msPerHour + minute * msPerMinute + sec * msPerSecond + ms"

text \<open>
  The day within its year on which month \<open>mn\<close> (0 to 11) begins; \<open>l\<close> is 1 in a leap
  year. These are the thresholds of \<^verbatim>\<open>MonthFromTime\<close>.
\<close>

definition FirstDayOfMonth :: "int \<Rightarrow> int \<Rightarrow> int" where
  "FirstDayOfMonth l mn =
     (if mn = 0 then 0
      else if mn = 1 then 31
      else if mn = 2 then 59 + l
      else if mn = 3 then 90 + l
      else if mn = 4 then 120 + l
      else if mn = 5 then 151 + l
      else if mn = 6 then 181 + l
      else if mn = 7 then 212 + l
      else if mn = 8 then 243 + l
      else if mn = 9 then 273 + l
      else if mn = 10 then 304 + l
      else 334 + l)"

text \<open>
  \<^verbatim>\<open>MakeDay(year, month, date)\<close>: the month is normalised into its year (\<open>ym\<close>,
  \<open>mn\<close>), the day number of the first of that month is found, and \<open>date - 1\<close> is added
  with no check against the length of the month. This is the "native rollover".
\<close>

definition MakeDay :: "int \<Rightarrow> int \<Rightarrow> int \<Rightarrow> int" where
  "MakeDay year month dt =
     (let ym = year + month div 12;
          mn = month mod 12;
          l = (if DaysInYear ym = 366 then 1 else 0)
      in DayFromYear ym + FirstDayOfMonth l mn + dt - 1)"

definition MakeDate :: "int \<Rightarrow> int \<Rightarrow> int" where
  "MakeDate day time = day * msPerDay + time"

definition TimeClip :: "int \<Rightarrow> number" where
  "TimeClip time = (if \<bar>time\<bar> > 8640000000000000 then None else Some time)"

subsection \<open>The host environment\<close>

text \<open>
  \<^verbatim>\<open>LocalTZA(t, isUTC)\<close> is the offset of local time in milliseconds: for \<open>isUTC\<close>
  true, \<open>t\<close> is a time value and the offset is the one in effect at that instant; for
  \<open>isUTC\<close> false, \<open>t\<close> is a local time, and ECMAScript asks for the offset before the
  transition when \<open>t\<close> is a wall-clock time that is repeated or skipped.
\<close>

record Host =
  LocalTZA :: "int \<Rightarrow> bool \<Rightarrow> int"
  currentTime :: int
  DateParse :: "string \<Rightarrow> number"

definition LocalTime :: "Host \<Rightarrow> int \<Rightarrow> int" where
  "LocalTime h t = t + LocalTZA h t True"

definition UTC :: "Host \<Rightarrow> int \<Rightarrow> int" where
  "UTC h t = t - LocalTZA h t False"

subsection \<open>Date objects\<close>

datatype Date = Date (getTime: number)

text \<open>The four constructor calls the library makes.\<close>

definition NewDate :: "Host \<Rightarrow> Date" where
  "NewDate h = Date (TimeClip (currentTime h))"

definition NewDateOfDate :: "Date \<Rightarrow> Date" where
  "NewDateOfDate d = Date (case getTime d of None \<Rightarrow> None | Some tv \<Rightarrow> TimeClip tv)"

definition NewDateOfNumber :: "number \<Rightarrow> Date" where
  "NewDateOfNumber n = Date (case n of None \<Rightarrow> None | Some tv \<Rightarrow> TimeClip tv)"

definition NewDateOfString :: "Host \<Rightarrow> string \<Rightarrow> Date" where
  "NewDateOfString h s = Date (case DateParse h s of None \<Rightarrow> None | Some tv \<Rightarrow> TimeClip tv)"

text \<open>Getters, all in local time; each returns \<open>NaN\<close> on an Invalid Date.\<close>

definition getFullYear :: "Host \<Rightarrow> Date \<Rightarrow> number" where
  "getFullYear h d = map_option (\<lambda>tv. YearFromTime (LocalTime h tv)) (getTime d)"

definition getMonth :: "Host \<Rightarrow> Date \<Rightarrow> number" where
  "getMonth h d = map_option (\<lambda>tv. MonthFromTime (LocalTime h tv)) (getTime d)"

definition getDate :: "Host \<Rightarrow> Date \<Rightarrow> number" where
  "getDate h d = map_option (\<lambda>tv. DateFromTime (LocalTime h tv)) (getTime d)"

definition getDay :: "Host \<Rightarrow> Date \<Rightarrow> number" where
  "getDay h d = map_option (\<lambda>tv. WeekDay (LocalTime h tv)) (getTime d)"

definition getHours :: "Host \<Rightarrow> Date \<Rightarrow> number" where
  "getHours h d = map_option (\<lambda>tv. HourFromTime (LocalTime h tv)) (getTime d)"

definition getMinutes :: "Host \<Rightarrow> Date \<Rightarrow> number" where
  "getMinutes h d = map_option (\<lambda>tv. MinFromTime (LocalTime h tv)) (getTime d)"

definition getSeconds :: "Host \<Rightarrow> Date \<Rightarrow> number" where
  "getSeconds h d = map_option (\<lambda>tv. SecFromTime (LocalTime h tv)) (getTime d)"

definition getMilliseconds :: "Host \<Rightarrow> Date \<Rightarrow> number" where
  "getMilliseconds h d = map_option (\<lambda>tv. msFromTime (LocalTime h tv)) (getTime d)"

text \<open>
  Setters. Each takes the receiver last and returns the updated object. A \<open>NaN\<close>
  argument or an Invalid Date receiver gives an Invalid Date (for \<^verbatim>\<open>setFullYear\<close>
  an Invalid Date receiver counts as time value 0); every result passes \<^verbatim>\<open>TimeClip\<close>.
\<close>

definition setMilliseconds :: "Host \<Rightarrow> number \<Rightarrow> Date \<Rightarrow> Date" where
  "setMilliseconds h ms d =
     (case getTime d of None \<Rightarrow> Date None | Some tv \<Rightarrow>
      (case ms of None \<Rightarrow> Date None | Some ms' \<Rightarrow>
        (let t = LocalTime h tv;
             time = MakeTime (HourFromTime t) (MinFromTime t) (SecFromTime t) ms'
         in Date (TimeClip (UTC h (MakeDate (Day t) time))))))"

definition setSeconds :: "Host \<Rightarrow> number \<Rightarrow> Date \<Rightarrow> Date" where
  "setSeconds h sec d =
     (case getTime d of None \<Rightarrow> Date None | Some tv \<Rightarrow>
      (case sec of None \<Rightarrow> Date None | Some s' \<Rightarrow>
        (let t = LocalTime h tv;
             time = MakeTime (HourFromTime t) (MinFromTime t) s' (msFromTime t)
         in Date (TimeClip (UTC h (MakeDate (Day t) time))))))"

definition setMinutes :: "Host \<Rightarrow> number \<Rightarrow> Date \<Rightarrow> Date" where
  "setMinutes h minute d =
     (case getTime d of None \<Rightarrow> Date None | Some tv \<Rightarrow>
      (case minute of None \<Rightarrow> Date None | Some m' \<Rightarrow>
        (let t = LocalTime h tv;
             time = MakeTime (HourFromTime t) m' (SecFromTime t) (msFromTime t)
         in Date (TimeClip (UTC h (MakeDate (Day t) time))))))"

definition setHours :: "Host \<Rightarrow> number \<Rightarrow> Date \<Rightarrow> Date" where
  "setHours h hour d =
     (case getTime d of None \<Rightarrow> Date None | Some tv \<Rightarrow>
      (case hour of None \<Rightarrow> Date None | Some h' \<Rightarrow>
        (let t = LocalTime h tv;
             time = MakeTime h' (MinFromTime t) (SecFromTime t) (msFromTime t)
         in Date (TimeClip (UTC h (MakeDate (Day t) time))))))"

text \<open>\<^verbatim>\<open>setHours(hour, min, sec, ms)\<close> with all four arguments, which are constants at
  every call site.\<close>

definition setHours4 :: "Host \<Rightarrow> int \<Rightarrow> int \<Rightarrow> int \<Rightarrow> int \<Rightarrow> Date \<Rightarrow> Date" where
  "setHours4 h hour minute sec ms d =
     (case getTime d of None \<Rightarrow> Date None | Some tv \<Rightarrow>
        (let t = LocalTime h tv
         in Date (TimeClip (UTC h (MakeDate (Day t) (MakeTime hour minute sec ms))))))"

definition setDate :: "Host \<Rightarrow> number \<Rightarrow> Date \<Rightarrow> Date" where
  "setDate h dt d =
     (case getTime d of None \<Rightarrow> Date None | Some tv \<Rightarrow>
      (case dt of None \<Rightarrow> Date None | Some dt' \<Rightarrow>
        (let t = LocalTime h tv;
             newDate = MakeDate (MakeDay (YearFromTime t) (MonthFromTime t) dt') (TimeWithinDay t)
         in Date (TimeClip (UTC h newDate)))))"

definition setMonth :: "Host \<Rightarrow> number \<Rightarrow> Date \<Rightarrow> Date" where
  "setMonth h month d =
     (case getTime d of None \<Rightarrow> Date None | Some tv \<Rightarrow>
      (case month of None \<Rightarrow> Date None | Some m' \<Rightarrow>
        (let t = LocalTime h tv;
             newDate = MakeDate (MakeDay (YearFromTime t) m' (DateFromTime t)) (TimeWithinDay t)
         in Date (TimeClip (UTC h newDate)))))"

text \<open>\<^verbatim>\<open>setMonth(month, date)\<close> with both arguments.\<close>

definition setMonth2 :: "Host \<Rightarrow> number \<Rightarrow> number \<Rightarrow> Date \<Rightarrow> Date" where
  "setMonth2 h month dt d =
     (case getTime d of None \<Rightarrow> Date None | Some tv \<Rightarrow>
      (case month of None \<Rightarrow> Date None | Some m' \<Rightarrow>
       (case dt of None \<Rightarrow> Date None | Some dt' \<Rightarrow>
        (let t = LocalTime h tv;
             newDate = MakeDate (MakeDay (YearFromTime t) m' dt') (TimeWithinDay t)
         in Date (TimeClip (UTC h newDate))))))"

definition setFullYear :: "Host \<Rightarrow> number \<Rightarrow> Date \<Rightarrow> Date" where
  "setFullYear h year d =
     (case year of None \<Rightarrow> Date None | Some y' \<Rightarrow>
        (let t = (case getTime d of None \<Rightarrow> 0 | Some tv \<Rightarrow> LocalTime h tv);
             newDate = MakeDate (MakeDay y' (MonthFromTime t) (DateFromTime t)) (TimeWithinDay t)
         in Date (TimeClip (UTC h newDate))))"

subsection \<open>Strings\<close>

text \<open>
  White space as \<^verbatim>\<open>\s\<close> and \<^verbatim>\<open>trim\<close> see it (TAB, LF, VT, FF, CR, space and
  no-break space are the ones below code 256), decimal digits as \<^verbatim>\<open>\d\<close> sees them, and
  \<^verbatim>\<open>toLowerCase\<close> on Latin-1: the letters \<open>A\<close> to \<open>Z\<close> (65 to 90) and the accented
  capitals (192 to 222 without the multiplication sign 215) move up by 32, which is
  setting bit 5 of the code (lemma \<open>of_char_toLowerChar\<close>).
\<close>

definition isSpace :: "char \<Rightarrow> bool" where
  "isSpace c = ((of_char c :: nat) \<in> {9, 10, 11, 12, 13, 32, 160})"

definition isDigit :: "char \<Rightarrow> bool" where
  "isDigit c = (48 \<le> (of_char c :: nat) \<and> (of_char c :: nat) \<le> 57)"

definition toLowerChar :: "char \<Rightarrow> char" where
  "toLowerChar c =
     (let n = (of_char c :: nat)
      in if (65 \<le> n \<and> n \<le> 90) \<or> (192 \<le> n \<and> n \<le> 222 \<and> n \<noteq> 215)
         then (case c of Char b0 b1 b2 b3 b4 b5 b6 b7 \<Rightarrow> Char b0 b1 b2 b3 b4 True b6 b7)
         else c)"

definition toLowerCase :: "string \<Rightarrow> string" where
  "toLowerCase s = map toLowerChar s"

definition trim :: "string \<Rightarrow> string" where
  "trim s = rev (dropWhile isSpace (rev (dropWhile isSpace s)))"

text \<open>\<^verbatim>\<open>s.replace(pat, rep)\<close> with a string pattern: the first occurrence only.\<close>

fun replace :: "string \<Rightarrow> string \<Rightarrow> string \<Rightarrow> string" where
  "replace pat rep [] = (if pat = [] then rep else [])"
| "replace pat rep (c # cs) =
     (if take (length pat) (c # cs) = pat then rep @ drop (length pat) (c # cs)
      else c # replace pat rep cs)"

text \<open>\<^verbatim>\<open>s.replace(/s$/, '')\<close>: drop one final \<open>s\<close>.\<close>

definition dropFinalS :: "string \<Rightarrow> string" where
  "dropFinalS s = (if s \<noteq> [] \<and> last s = CHR ''s'' then butlast s else s)"

text \<open>\<^verbatim>\<open>array.indexOf(x)\<close>.\<close>

fun indexOf :: "'a list \<Rightarrow> 'a \<Rightarrow> int" where
  "indexOf [] x = -1"
| "indexOf (y # ys) x = (if y = x then 0 else (let i = indexOf ys x in if i = -1 then -1 else i + 1))"

text \<open>
  \<^verbatim>\<open>parseInt(s)\<close> without a radix, for decimal input: leading white space is
  skipped, the longest prefix of digits is read, and there being none gives \<open>NaN\<close>.
  (Signs and the \<^verbatim>\<open>0x\<close> prefix are not modelled: the one call site passes the text
  captured by \<^verbatim>\<open>(\d+)\<close>.)
\<close>

definition digitVal :: "char \<Rightarrow> int" where
  "digitVal c = int (of_char c) - 48"

definition parseInt :: "string \<Rightarrow> number" where
  "parseInt s =
     (let ds = takeWhile isDigit (dropWhile isSpace s)
      in if ds = [] then None else Some (foldl (\<lambda>a c. 10 * a + digitVal c) 0 ds))"

subsection \<open>Regular expressions\<close>

text \<open>
  A matcher consumes a prefix of its input and returns the rest, or fails. The library's
  patterns are all anchored at the start (\<^verbatim>\<open>^\<close>), carry the flag \<^verbatim>\<open>i\<close> and are
  built from literals, \<^verbatim>\<open>\s+\<close>, \<^verbatim>\<open>\d+\<close>, alternation, optional groups and
  \<^verbatim>\<open>$\<close>. In each of them a repetition is followed by something that cannot begin with
  a character of the repeated class, no alternative is a prefix of another, and what
  follows an optional group cannot begin the way the group does; so the first path a
  backtracking matcher tries is the only one that can succeed, and the matchers below
  take it: repetitions are maximal, alternatives are tried in order, an optional group is
  taken when it matches.
\<close>

type_synonym matcher = "string \<Rightarrow> string option"

text \<open>A literal under flag \<^verbatim>\<open>i\<close>; the pattern text \<open>p\<close> is in lower case.\<close>

definition lit :: "string \<Rightarrow> matcher" where
  "lit p s = (if toLowerCase (take (length p) s) = p then Some (drop (length p) s) else None)"

text \<open>\<^verbatim>\<open>\s+\<close>\<close>

definition spaces1 :: matcher where
  "spaces1 s = (if s \<noteq> [] \<and> isSpace (hd s) then Some (dropWhile isSpace s) else None)"

text \<open>\<^verbatim>\<open>\d+\<close>\<close>

definition digits1 :: matcher where
  "digits1 s = (if s \<noteq> [] \<and> isDigit (hd s) then Some (dropWhile isDigit s) else None)"

text \<open>\<^verbatim>\<open>$\<close>\<close>

definition eos :: matcher where
  "eos s = (if s = [] then Some [] else None)"

text \<open>Concatenation, alternation \<^verbatim>\<open>a|b|...\<close> and the optional group \<^verbatim>\<open>(?:a)?\<close>.\<close>

fun seqs :: "matcher list \<Rightarrow> matcher" where
  "seqs [] s = Some s"
| "seqs (m # ms) s = (case m s of None \<Rightarrow> None | Some r \<Rightarrow> seqs ms r)"

fun alts :: "matcher list \<Rightarrow> matcher" where
  "alts [] s = None"
| "alts (m # ms) s = (case m s of None \<Rightarrow> alts ms s | Some r \<Rightarrow> Some r)"

definition opt :: "matcher \<Rightarrow> matcher" where
  "opt m s = (case m s of None \<Rightarrow> Some s | Some r \<Rightarrow> Some r)"

text \<open>The text a matcher consumed from \<open>s\<close>, given the rest \<open>r\<close> it returned: the
  content of a capture group, or \<^verbatim>\<open>match[0]\<close> for a whole pattern.\<close>

definition consumed :: "string \<Rightarrow> string \<Rightarrow> string" where
  "consumed s r = take (length s - length r) s"

text \<open>\<^verbatim>\<open>input.match(regex)\<close> for a pattern without groups: \<^verbatim>\<open>match[0]\<close> or no match.\<close>

definition match0 :: "matcher \<Rightarrow> string \<Rightarrow> string option" where
  "match0 m s = map_option (consumed s) (m s)"

section \<open>The library\<close>

subsection \<open>Types (\<^verbatim>\<open>types.ts\<close>)\<close>

datatype DateLike = OfDate Date | OfString string | OfNumber number

datatype TimeUnit =
  UMillisecond | USecond | UMinute | UHour | UDay | UWeek | UMonth | UYear

record ParseOptions =
  defaultDate :: "Date option"
  strict :: "bool option"

record NLPParseResult =
  date :: "Date option"
  confidence :: real
  matched :: string
  remaining :: string

text \<open>
  The exceptions the library throws. \<open>InvalidDateType\<close> and \<open>UnknownUnit\<close> are the
  \<^verbatim>\<open>default\<close> branches over a value of type \<^verbatim>\<open>DateLike\<close> and
  \<^verbatim>\<open>TimeUnit\<close>; the types leave no value for them, so no function below returns
  them.
\<close>

datatype error =
  InvalidDate DateLike
| InvalidDateType
| UnknownUnit
| UnknownTimeUnit string

subsection \<open>Core (\<^verbatim>\<open>toDate\<close>, \<^verbatim>\<open>now\<close>, \<^verbatim>\<open>today\<close>, ..., \<^verbatim>\<open>differenceIn\<close>)\<close>

definition toDate :: "Host \<Rightarrow> DateLike \<Rightarrow> error + Date" where
  "toDate h v =
     (case v of
        OfDate d \<Rightarrow> Inr (NewDateOfDate d)
      | OfString s \<Rightarrow>
          (let d = NewDateOfString h s
           in if getTime d = None then Inl (InvalidDate v) else Inr d)
      | OfNumber n \<Rightarrow>
          (let d = NewDateOfNumber n
           in if getTime d = None then Inl (InvalidDate v) else Inr d))"

definition now :: "Host \<Rightarrow> Date" where
  "now h = NewDate h"

definition today :: "Host \<Rightarrow> Date" where
  "today h = setHours4 h 0 0 0 0 (NewDate h)"

definition tomorrow :: "Host \<Rightarrow> Date" where
  "tomorrow h = (let d = today h in setDate h (nplus (getDate h d) (Some 1)) d)"

definition yesterday :: "Host \<Rightarrow> Date" where
  "yesterday h = (let d = today h in setDate h (nminus (getDate h d) (Some 1)) d)"

definition clone :: "Host \<Rightarrow> DateLike \<Rightarrow> error + Date" where
  "clone h v = (case toDate h v of Inl e \<Rightarrow> Inl e | Inr d \<Rightarrow> Inr (NewDateOfDate d))"

definition differenceIn :: "Host \<Rightarrow> DateLike \<Rightarrow> DateLike \<Rightarrow> TimeUnit \<Rightarrow> error + number" where
  "differenceIn h a b unit =
     (case toDate h a of Inl e \<Rightarrow> Inl e | Inr dateA \<Rightarrow>
      (case toDate h b of Inl e \<Rightarrow> Inl e | Inr dateB \<Rightarrow>
        (let diff = nminus (getTime dateA) (getTime dateB)
         in Inr (case unit of
              UMillisecond \<Rightarrow> diff
            | USecond \<Rightarrow> floorDiv diff 1000
            | UMinute \<Rightarrow> floorDiv diff (1000 * 60)
            | UHour \<Rightarrow> floorDiv diff (1000 * 60 * 60)
            | UDay \<Rightarrow> floorDiv diff (1000 * 60 * 60 * 24)
            | UWeek \<Rightarrow> floorDiv diff (1000 * 60 * 60 * 24 * 7)
            | UMonth \<Rightarrow>
                nplus (ntimes (nminus (getFullYear h dateA) (getFullYear h dateB)) (Some 12))
                      (nminus (getMonth h dateA) (getMonth h dateB))
            | UYear \<Rightarrow> nminus (getFullYear h dateA) (getFullYear h dateB)))))"

subsection \<open>Date utilities (\<^verbatim>\<open>add\<close>, \<^verbatim>\<open>subtract\<close>, start and end of periods)\<close>

definition add :: "Host \<Rightarrow> DateLike \<Rightarrow> number \<Rightarrow> TimeUnit \<Rightarrow> error + Date" where
  "add h d amount unit =
     (case clone h d of Inl e \<Rightarrow> Inl e | Inr result \<Rightarrow>
        Inr (case unit of
          UMillisecond \<Rightarrow> setMilliseconds h (nplus (getMilliseconds h result) amount) result
        | USecond \<Rightarrow> setSeconds h (nplus (getSeconds h result) amount) result
        | UMinute \<Rightarrow> setMinutes h (nplus (getMinutes h result) amount) result
        | UHour \<Rightarrow> setHours h (nplus (getHours h result) amount) result
        | UDay \<Rightarrow> setDate h (nplus (getDate h result) amount) result
        | UWeek \<Rightarrow> setDate h (nplus (getDate h result) (ntimes amount (Some 7))) result
        | UMonth \<Rightarrow> setMonth h (nplus (getMonth h result) amount) result
        | UYear \<Rightarrow> setFullYear h (nplus (getFullYear h result) amount) result))"

definition subtract :: "Host \<Rightarrow> DateLike \<Rightarrow> number \<Rightarrow> TimeUnit \<Rightarrow> error + Date" where
  "subtract h d amount unit = add h d (nneg amount) unit"

definition startOfDay :: "Host \<Rightarrow> DateLike \<Rightarrow> error + Date" where
  "startOfDay h d =
     (case clone h d of Inl e \<Rightarrow> Inl e | Inr result \<Rightarrow> Inr (setHours4 h 0 0 0 0 result))"

definition endOfDay :: "Host \<Rightarrow> DateLike \<Rightarrow> error + Date" where
  "endOfDay h d =
     (case clone h d of Inl e \<Rightarrow> Inl e | Inr result \<Rightarrow> Inr (setHours4 h 23 59 59 999 result))"

definition startOfWeek :: "Host \<Rightarrow> DateLike \<Rightarrow> int \<Rightarrow> error + Date" where
  "startOfWeek h d weekStartsOn =
     (case startOfDay h d of Inl e \<Rightarrow> Inl e | Inr result \<Rightarrow>
        (let day = getDay h result;
             diff = nminus (nplus (Some (if nless day (Some weekStartsOn) then 7 else 0)) day)
                      (Some weekStartsOn)
         in Inr (setDate h (nminus (getDate h result) diff) result)))"

definition endOfWeek :: "Host \<Rightarrow> DateLike \<Rightarrow> int \<Rightarrow> error + Date" where
  "endOfWeek h d weekStartsOn =
     (case startOfWeek h d weekStartsOn of Inl e \<Rightarrow> Inl e | Inr result \<Rightarrow>
        endOfDay h (OfDate (setDate h (nplus (getDate h result) (Some 6)) result)))"

definition startOfMonth :: "Host \<Rightarrow> DateLike \<Rightarrow> error + Date" where
  "startOfMonth h d =
     (case clone h d of Inl e \<Rightarrow> Inl e | Inr result \<Rightarrow>
        startOfDay h (OfDate (setDate h (Some 1) result)))"

definition endOfMonth :: "Host \<Rightarrow> DateLike \<Rightarrow> error + Date" where
  "endOfMonth h d =
     (case clone h d of Inl e \<Rightarrow> Inl e | Inr result \<Rightarrow>
        endOfDay h (OfDate (setMonth2 h (nplus (getMonth h result) (Some 1)) (Some 0) result)))"

subsection \<open>Natural-language parsing (\<^verbatim>\<open>nlp/index.ts\<close>)\<close>

definition noMatch :: "string \<Rightarrow> NLPParseResult" where
  "noMatch input = \<lparr>date = None, confidence = 0, matched = [], remaining = input\<rparr>"

text \<open>
  The loop \<^verbatim>\<open>for (const pattern of patterns) { const match = input.match(pattern.regex);
  if (match) return ... }\<close>: the first pattern that matches, with its \<^verbatim>\<open>match[0]\<close> and
  the value the pattern carries.
\<close>

fun firstMatch :: "(matcher \<times> 'a) list \<Rightarrow> string \<Rightarrow> (string \<times> 'a) option" where
  "firstMatch [] input = None"
| "firstMatch ((regex, v) # patterns) input =
     (case match0 regex input of
        Some m0 \<Rightarrow> Some (m0, v)
      | None \<Rightarrow> firstMatch patterns input)"

text \<open>
  \<^verbatim>\<open>/^(today|now)(?:\s+|$)/i\<close>, \<^verbatim>\<open>/^tomorrow(?:\s+|$)/i\<close>,
  \<^verbatim>\<open>/^yesterday(?:\s+|$)/i\<close>. The functions the patterns carry read the system
  clock; the parameter \<open>dflt\<close> (\<^verbatim>\<open>defaultDate\<close>) is not used.
\<close>

definition keywordPatterns :: "Host \<Rightarrow> (matcher \<times> Date) list" where
  "keywordPatterns h =
     [(seqs [alts [lit ''today'', lit ''now''], alts [spaces1, eos]], today h),
      (seqs [lit ''tomorrow'', alts [spaces1, eos]], tomorrow h),
      (seqs [lit ''yesterday'', alts [spaces1, eos]], yesterday h)]"

definition parseRelativeKeywords :: "Host \<Rightarrow> string \<Rightarrow> Date \<Rightarrow> error + NLPParseResult" where
  "parseRelativeKeywords h input dflt =
     (case firstMatch (keywordPatterns h) input of
        Some (m0, d) \<Rightarrow>
          Inr \<lparr>date = Some d, confidence = 0.95, matched = trim m0,
               remaining = trim (replace m0 [] input)\<rparr>
      | None \<Rightarrow> Inr (noMatch input))"

text \<open>\<^verbatim>\<open>(milliseconds?|seconds?|minutes?|hours?|days?|weeks?|months?|years?)\<close>\<close>

definition unitWord :: matcher where
  "unitWord =
     alts (map (\<lambda>w. seqs [lit w, opt (lit ''s'')])
       [''millisecond'', ''second'', ''minute'', ''hour'', ''day'', ''week'', ''month'', ''year''])"

text \<open>
  \<^verbatim>\<open>/^(?:in\s+)?(\d+)\s+(...units...)(?:\s+(?:from\s+now|ahead))?$/i\<close>, returning
  \<^verbatim>\<open>match[0]\<close>, \<^verbatim>\<open>match[1]\<close> and \<^verbatim>\<open>match[2]\<close>.
\<close>

definition futurePattern :: "string \<Rightarrow> (string \<times> string \<times> string) option" where
  "futurePattern input =
     do {
       r0 \<leftarrow> opt (seqs [lit ''in'', spaces1]) input;
       r1 \<leftarrow> digits1 r0;
       r2 \<leftarrow> spaces1 r1;
       r3 \<leftarrow> unitWord r2;
       r4 \<leftarrow> seqs [opt (seqs [spaces1,
                     alts [seqs [lit ''from'', spaces1, lit ''now''], lit ''ahead'']]),
                   eos] r3;
       Some (consumed input r4, consumed r0 r1, consumed r2 r3)
     }"

text \<open>\<^verbatim>\<open>/^(\d+)\s+(...units...)\s+ago$/i\<close>\<close>

definition pastPattern :: "string \<Rightarrow> (string \<times> string \<times> string) option" where
  "pastPattern input =
     do {
       r1 \<leftarrow> digits1 input;
       r2 \<leftarrow> spaces1 r1;
       r3 \<leftarrow> unitWord r2;
       r4 \<leftarrow> seqs [spaces1, lit ''ago'', eos] r3;
       Some (consumed input r4, consumed input r1, consumed r2 r3)
     }"

definition normalizeTimeUnit :: "string \<Rightarrow> error + TimeUnit" where
  "normalizeTimeUnit unit =
     (let normalized = dropFinalS (toLowerCase unit)
      in if normalized = ''millisecond'' then Inr UMillisecond
         else if normalized = ''second'' then Inr USecond
         else if normalized = ''minute'' then Inr UMinute
         else if normalized = ''hour'' then Inr UHour
         else if normalized = ''day'' then Inr UDay
         else if normalized = ''week'' then Inr UWeek
         else if normalized = ''month'' then Inr UMonth
         else if normalized = ''year'' then Inr UYear
         else Inl (UnknownTimeUnit unit))"

definition parseRelativeTime :: "Host \<Rightarrow> string \<Rightarrow> Date \<Rightarrow> error + NLPParseResult" where
  "parseRelativeTime h input dflt =
     (case futurePattern input of
        Some (m0, m1, m2) \<Rightarrow>
          (let amount = parseInt m1
           in case normalizeTimeUnit m2 of Inl e \<Rightarrow> Inl e | Inr unit \<Rightarrow>
              (case add h (OfDate dflt) amount unit of Inl e \<Rightarrow> Inl e | Inr d \<Rightarrow>
                 Inr \<lparr>date = Some d, confidence = 0.9, matched = m0,
                      remaining = trim (replace m0 [] input)\<rparr>))
      | None \<Rightarrow>
          (case pastPattern input of
             Some (m0, m1, m2) \<Rightarrow>
               (let amount = parseInt m1
                in case normalizeTimeUnit m2 of Inl e \<Rightarrow> Inl e | Inr unit \<Rightarrow>
                   (case subtract h (OfDate dflt) amount unit of Inl e \<Rightarrow> Inl e | Inr d \<Rightarrow>
                      Inr \<lparr>date = Some d, confidence = 0.9, matched = m0,
                           remaining = trim (replace m0 [] input)\<rparr>))
           | None \<Rightarrow> Inr (noMatch input)))"

definition weekdays :: "string list" where
  "weekdays = [''sunday'', ''monday'', ''tuesday'', ''wednesday'', ''thursday'', ''friday'',
     ''saturday'']"

text \<open>
  \<^verbatim>\<open>/^(next|last|this)\s+(sunday|monday|tuesday|wednesday|thursday|friday|saturday)$/i\<close>
\<close>

definition weekdayPattern :: "string \<Rightarrow> (string \<times> string \<times> string) option" where
  "weekdayPattern input =
     do {
       r1 \<leftarrow> alts [lit ''next'', lit ''last'', lit ''this''] input;
       r2 \<leftarrow> spaces1 r1;
       r3 \<leftarrow> alts (map lit weekdays) r2;
       r4 \<leftarrow> eos r3;
       Some (consumed input r4, consumed input r1, consumed r2 r3)
     }"

definition parseWeekdays :: "Host \<Rightarrow> string \<Rightarrow> Date \<Rightarrow> error + NLPParseResult" where
  "parseWeekdays h input dflt =
     (case weekdayPattern input of
        Some (m0, m1, m2) \<Rightarrow>
          (let modifier = toLowerCase m1;
               weekday = toLowerCase m2;
               targetDay = indexOf weekdays weekday
           in if targetDay = -1 then Inr (noMatch input)
              else
                (let currentDay = getDay h dflt;
                     d = NewDateOfDate dflt;
                     daysToAdd = nminus (Some targetDay) currentDay;
                     daysToAdd' =
                       (if modifier = ''next'' then
                          (if nle daysToAdd (Some 0) then nplus daysToAdd (Some 7) else daysToAdd)
                        else if modifier = ''last'' then
                          (if nle (Some 0) daysToAdd then nminus daysToAdd (Some 7) else daysToAdd)
                        else if modifier = ''this'' then
                          (if nless daysToAdd (Some 0) then nplus daysToAdd (Some 7) else daysToAdd)
                        else daysToAdd);
                     d1 = setDate h (nplus (getDate h d) daysToAdd') d;
                     d2 = setHours4 h 0 0 0 0 d1
                 in Inr \<lparr>date = Some d2, confidence = 0.85, matched = m0,
                         remaining = trim (replace m0 [] input)\<rparr>))
      | None \<Rightarrow> Inr (noMatch input))"

text \<open>
  \<^verbatim>\<open>/^(?:beginning|start)\s+of\s+(?:the\s+)?month$/i\<close>,
  \<^verbatim>\<open>/^end\s+of\s+(?:the\s+)?month$/i\<close>, and the same two for \<^verbatim>\<open>week\<close>;
  \<^verbatim>\<open>startOfWeek\<close> and \<^verbatim>\<open>endOfWeek\<close> are called with the default
  \<^verbatim>\<open>weekStartsOn = 0\<close>.
\<close>

definition periodRegex :: "string list \<Rightarrow> string \<Rightarrow> matcher" where
  "periodRegex heads period =
     seqs [alts (map lit heads), spaces1, lit ''of'', spaces1, opt (seqs [lit ''the'', spaces1]),
           lit period, eos]"

definition periodPatterns :: "Host \<Rightarrow> Date \<Rightarrow> (matcher \<times> (error + Date)) list" where
  "periodPatterns h dflt =
     [(periodRegex [''beginning'', ''start''] ''month'', startOfMonth h (OfDate dflt)),
      (periodRegex [''end''] ''month'', endOfMonth h (OfDate dflt)),
      (periodRegex [''beginning'', ''start''] ''week'', startOfWeek h (OfDate dflt) 0),
      (periodRegex [''end''] ''week'', endOfWeek h (OfDate dflt) 0)]"

definition parseMonthReferences :: "Host \<Rightarrow> string \<Rightarrow> Date \<Rightarrow> error + NLPParseResult" where
  "parseMonthReferences h input dflt =
     (case firstMatch (periodPatterns h dflt) input of
        Some (m0, fn) \<Rightarrow>
          (case fn of Inl e \<Rightarrow> Inl e | Inr d \<Rightarrow>
             Inr \<lparr>date = Some d, confidence = 0.8, matched = m0,
                  remaining = trim (replace m0 [] input)\<rparr>)
      | None \<Rightarrow> Inr (noMatch input))"

text \<open>\<^verbatim>\<open>/^noon$/i\<close> with hours 12 and \<^verbatim>\<open>/^midnight$/i\<close> with hours 0 (minutes 0).\<close>

definition timePatterns :: "(matcher \<times> (int \<times> int)) list" where
  "timePatterns =
     [(seqs [lit ''noon'', eos], (12, 0)),
      (seqs [lit ''midnight'', eos], (0, 0))]"

definition parseTimeExpressions :: "Host \<Rightarrow> string \<Rightarrow> Date \<Rightarrow> error + NLPParseResult" where
  "parseTimeExpressions h input dflt =
     (case firstMatch timePatterns input of
        Some (m0, (hours, minutes)) \<Rightarrow>
          Inr \<lparr>date = Some (setHours4 h hours minutes 0 0 (NewDateOfDate dflt)),
               confidence = 0.75, matched = m0,
               remaining = trim (replace m0 [] input)\<rparr>
      | None \<Rightarrow> Inr (noMatch input))"

text \<open>
  The chain of \<^verbatim>\<open>parseNatural\<close>: the first parser whose result has a date wins (a
  \<^verbatim>\<open>Date\<close> object is truthy also when it is an Invalid Date); an exception ends the
  loop.
\<close>

fun tryParsers :: "(string \<Rightarrow> Date \<Rightarrow> error + NLPParseResult) list \<Rightarrow> string \<Rightarrow> Date
    \<Rightarrow> error + NLPParseResult option" where
  "tryParsers [] input dflt = Inr None"
| "tryParsers (parser # parsers) input dflt =
     (case parser input dflt of
        Inl e \<Rightarrow> Inl e
      | Inr result \<Rightarrow>
          (if date result \<noteq> None then Inr (Some result) else tryParsers parsers input dflt))"

definition parsers :: "Host \<Rightarrow> (string \<Rightarrow> Date \<Rightarrow> error + NLPParseResult) list" where
  "parsers h =
     [parseRelativeKeywords h, parseRelativeTime h, parseWeekdays h, parseMonthReferences h,
      parseTimeExpressions h]"

definition normalizeInput :: "string \<Rightarrow> string" where
  "normalizeInput input = trim (toLowerCase input)"

definition parseNatural :: "Host \<Rightarrow> string \<Rightarrow> ParseOptions \<Rightarrow> error + NLPParseResult" where
  "parseNatural h input options =
     (let dflt = (case defaultDate options of None \<Rightarrow> now h | Some d \<Rightarrow> d);
          strictMode = (case strict options of None \<Rightarrow> False | Some b \<Rightarrow> b);
          normalizedInput = normalizeInput input
      in case tryParsers (parsers h) normalizedInput dflt of
           Inl e \<Rightarrow> Inl e
         | Inr (Some result) \<Rightarrow> Inr result
         | Inr None \<Rightarrow>
             (if strictMode then Inr (noMatch normalizedInput)
              else
                (let d = NewDateOfString h input
                 in if getTime d \<noteq> None
                    then Inr \<lparr>date = Some d, confidence = 0.5, matched = input, remaining = []\<rparr>
                    else Inr (noMatch normalizedInput))))"

definition parse :: "Host \<Rightarrow> string \<Rightarrow> ParseOptions \<Rightarrow> error + Date option" where
  "parse h input options =
     (case parseNatural h input options of Inl e \<Rightarrow> Inl e | Inr result \<Rightarrow> Inr (date result))"

definition canParse :: "Host \<Rightarrow> string \<Rightarrow> ParseOptions \<Rightarrow> error + bool" where
  "canParse h input options =
     (case parseNatural h input options of
        Inl e \<Rightarrow> Inl e
      | Inr result \<Rightarrow> Inr (date result \<noteq> None \<and> confidence result > 0.5))"

section \<open>Notions used to state the properties\<close>

text \<open>
  A host for the concrete examples: local time is UTC, the clock reads
  2025-07-09T15:00:00Z (the instant the test suite mocks), and \<^verbatim>\<open>Date.parse\<close> knows
  two literals of the ECMAScript date-time string format.
\<close>

definition exampleHost :: Host where
  "exampleHost =
     \<lparr>LocalTZA = (\<lambda>t isUTC. 0), currentTime = 1752073200000,
      DateParse = (\<lambda>s. if s = ''2025-12-25'' then Some 1766620800000
                        else if s = ''2025-12-25T10:00:00Z'' then Some 1766656800000
                        else None)\<rparr>"

text \<open>
  A host with a daylight-saving transition: America/New_York around 2 November 2025,
  when the clocks go from 02:00 EDT (UTC-4) back to 01:00 EST (UTC-5) at 06:00:00Z, time
  value 1762063200000. The wall-clock hour from 01:00 to 02:00 occurs twice; a local time
  before 02:00 (1762048800000 read as a local time) is taken at the offset before the
  transition. The clock reads 06:30:00Z, which is 01:30 EST.
\<close>

definition newYorkHost :: Host where
  "newYorkHost =
     \<lparr>LocalTZA = (\<lambda>t isUTC.
         if isUTC then (if t < 1762063200000 then - 14400000 else - 18000000)
         else (if t < 1762048800000 then - 14400000 else - 18000000)),
      currentTime = 1762065000000,
      DateParse = (\<lambda>s. None)\<rparr>"

text \<open>
  A time value a \<^verbatim>\<open>Date\<close> object can hold: \<^verbatim>\<open>TimeClip\<close> turns everything beyond
  8.64e15 ms into \<open>NaN\<close>, so this is true of every \<^verbatim>\<open>Date\<close> a program constructs.
\<close>

definition inTimeRange :: "int \<Rightarrow> bool" where
  "inTimeRange tv = (\<bar>tv\<bar> \<le> 8640000000000000)"

text \<open>
  The integers on which the program's binary64 arithmetic is exact
  (\<^verbatim>\<open>Number.isSafeInteger\<close>): those of magnitude at most \<open>2^53 - 1\<close>.
\<close>

definition safeInteger :: "int \<Rightarrow> bool" where
  "safeInteger n = (\<bar>n\<bar> \<le> 9007199254740991)"

text \<open>
  The spec's wording for \<^verbatim>\<open>differenceIn\<close> on the units of fixed length: the
  difference "expressed in whole units, truncated toward zero", next to the length of each
  such unit in milliseconds.
\<close>

definition truncDiv :: "int \<Rightarrow> int \<Rightarrow> int" where
  "truncDiv x k = sgn x * (\<bar>x\<bar> div k)"

definition unitMs :: "TimeUnit \<Rightarrow> int" where
  "unitMs unit =
     (case unit of
        UMillisecond \<Rightarrow> 1
      | USecond \<Rightarrow> 1000
      | UMinute \<Rightarrow> 60000
      | UHour \<Rightarrow> 3600000
      | UDay \<Rightarrow> 86400000
      | UWeek \<Rightarrow> 604800000
      | UMonth \<Rightarrow> 0
      | UYear \<Rightarrow> 0)"

text \<open>What a matcher returns is a suffix of what it was given.\<close>

definition suffixing :: "matcher \<Rightarrow> bool" where
  "suffixing m = (\<forall>s r. m s = Some r \<longrightarrow> (\<exists>c. s = c @ r))"

text \<open>
  The spec's reconstruction of the input from a result: \<open>matched\<close>, a single separator,
  \<open>remaining\<close>, the separator left out when \<open>remaining\<close> is empty.
\<close>

definition reconstruct :: "string \<Rightarrow> string \<Rightarrow> string" where
  "reconstruct m r = (if r = [] then m else m @ '' '' @ r)"

text \<open>The length of month \<open>mn\<close> (0 to 11) of year \<open>y\<close>.\<close>

definition DaysInMonth :: "int \<Rightarrow> int \<Rightarrow> int" where
  "DaysInMonth y mn =
     (if mn = 1 then (if DaysInYear y = 366 then 29 else 28)
      else if mn = 3 \<or> mn = 5 \<or> mn = 8 \<or> mn = 10 then 30
      else 31)"

text \<open>
  The phrases of the relative-offset claims: the decimal spelling of a natural number and
  the singular spelling of each unit (the plural adds \<open>s\<close>).
\<close>

definition digitChar :: "nat \<Rightarrow> char" where
  "digitChar d = ''0123456789'' ! d"

fun decimal :: "nat \<Rightarrow> string" where
  "decimal n = (if n < 10 then [digitChar n] else decimal (n div 10) @ [digitChar (n mod 10)])"

definition unitName :: "TimeUnit \<Rightarrow> string" where
  "unitName unit =
     (case unit of
        UMillisecond \<Rightarrow> ''millisecond''
      | USecond \<Rightarrow> ''second''
      | UMinute \<Rightarrow> ''minute''
      | UHour \<Rightarrow> ''hour''
      | UDay \<Rightarrow> ''day''
      | UWeek \<Rightarrow> ''week''
      | UMonth \<Rightarrow> ''month''
      | UYear \<Rightarrow> ''year'')"

text \<open>
  The local time that \<^verbatim>\<open>setMonth(getMonth() + 1)\<close> asks for at local time \<open>t\<close>: the
  same day number and time of day in the following month, counted on from the first of
  that month whatever its length.
\<close>

definition monthAfter :: "int \<Rightarrow> int" where
  "monthAfter t =
     MakeDate (MakeDay (YearFromTime t) (MonthFromTime t + 1) (DateFromTime t)) (TimeWithinDay t)"

section \<open>Properties of the calendar\<close>

subsection \<open>Integer division\<close>

lemma div_bounds:
  fixes x n :: int
  assumes "0 < n"
  shows "n * (x div n) \<le> x" and "x < n * (x div n) + n"
proof -
  have "x = n * (x div n) + x mod n" by simp
  moreover have "0 \<le> x mod n" "x mod n < n" using assms by simp_all
  ultimately show "n * (x div n) \<le> x" and "x < n * (x div n) + n" by linarith+
qed

lemma div_succ:
  fixes x n :: int
  assumes "0 < n"
  shows "(x + 1) div n = x div n + (if (x + 1) mod n = 0 then 1 else 0)"
proof (cases "(x + 1) mod n = 0")
  case True
  have "x + 1 = n * ((x + 1) div n) + (x + 1) mod n" by simp
  then have e: "x + 1 = n * ((x + 1) div n)" using True by simp
  have "x = n * ((x + 1) div n - 1) + (n - 1)" using e by (simp add: algebra_simps)
  then have "x div n = (x + 1) div n - 1"
    using assms by (intro int_div_pos_eq[where r = "n - 1"]) simp_all
  with True show ?thesis by simp
next
  case False
  have "0 \<le> (x + 1) mod n" "(x + 1) mod n < n" using assms by simp_all
  then have r: "0 < (x + 1) mod n" "(x + 1) mod n < n"
    using False by linarith+
  have "x + 1 = n * ((x + 1) div n) + (x + 1) mod n" by simp
  then have "x = n * ((x + 1) div n) + ((x + 1) mod n - 1)" by linarith
  then have "x div n = (x + 1) div n"
    using r by (intro int_div_pos_eq[where r = "(x + 1) mod n - 1"]) simp_all
  with False show ?thesis by simp
qed

lemma mod_shift: "(y - k * n) mod n = (y::int) mod n"
  using mod_mult_self1[of y "- k" n] by simp

subsection \<open>Years\<close>

lemma DayFromYear_step: "DayFromYear (y + 1) = DayFromYear y + DaysInYear y"
proof -
  have a: "(y + 1 - 1969) div 4 = (y - 1969) div 4 + (if y mod 4 = 0 then 1 else 0)"
    using div_succ[of 4 "y - 1969"] mod_shift[of y 492 4] by (simp add: algebra_simps)
  have b: "(y + 1 - 1901) div 100 = (y - 1901) div 100 + (if y mod 100 = 0 then 1 else 0)"
    using div_succ[of 100 "y - 1901"] mod_shift[of y 19 100] by (simp add: algebra_simps)
  have c: "(y + 1 - 1601) div 400 = (y - 1601) div 400 + (if y mod 400 = 0 then 1 else 0)"
    using div_succ[of 400 "y - 1601"] mod_shift[of y 4 400] by (simp add: algebra_simps)
  have d1: "y mod 100 = 0 \<Longrightarrow> y mod 4 = 0"
    using dvd_trans[of 4 100 y] by (simp add: mod_eq_0_iff_dvd)
  have d2: "y mod 400 = 0 \<Longrightarrow> y mod 100 = 0"
    using dvd_trans[of 100 400 y] by (simp add: mod_eq_0_iff_dvd)
  show ?thesis
    using d1 d2 unfolding DayFromYear_def DaysInYear_def a b c
    by (auto simp: algebra_simps)
qed

lemma DaysInYear_cases: "DaysInYear y = 365 \<or> DaysInYear y = 366"
  by (simp add: DaysInYear_def)

lemma DayFromYear_approx:
  "146097 * y - 287811596 \<le> 400 * DayFromYear y"
  "400 * DayFromYear y \<le> 146097 * y - 287810501"
proof -
  define q4 where "q4 = (y - 1969) div 4"
  define q100 where "q100 = (y - 1901) div 100"
  define q400 where "q400 = (y - 1601) div 400"
  have b: "4 * q4 \<le> y - 1969" "y - 1969 < 4 * q4 + 4"
    "100 * q100 \<le> y - 1901" "y - 1901 < 100 * q100 + 100"
    "400 * q400 \<le> y - 1601" "y - 1601 < 400 * q400 + 400"
    unfolding q4_def q100_def q400_def by (simp_all add: div_bounds)
  have e: "400 * DayFromYear y = 146000 * y - 287620000 + 400 * q4 - 400 * q100 + 400 * q400"
    unfolding DayFromYear_def q4_def q100_def q400_def by simp
  show "146097 * y - 287811596 \<le> 400 * DayFromYear y"
    and "400 * DayFromYear y \<le> 146097 * y - 287810501"
    unfolding e using b by linarith+
qed

text \<open>The executable year is the year ECMAScript defines: its first day is not after \<open>d\<close>
  and the first day of the next year is.\<close>

lemma YearFromDay_bounds:
  "DayFromYear (YearFromDay d) \<le> d \<and> d < DayFromYear (YearFromDay d + 1)"
proof -
  define q where "q = (400 * d) div 146097"
  define y0 where "y0 = 1970 + q"
  have a: "146097 * q \<le> 400 * d" "400 * d < 146097 * q + 146097"
    unfolding q_def by (simp_all add: div_bounds)
  have "400 * DayFromYear (y0 - 1) \<le> 146097 * q + 287811090 - 146097 - 287810501"
    using DayFromYear_approx(2)[of "y0 - 1"] unfolding y0_def by (simp add: algebra_simps)
  then have lo: "DayFromYear (y0 - 1) \<le> d"
    using a by linarith
  have "146097 * q + 287811090 + 292194 - 287811596 \<le> 400 * DayFromYear (y0 + 2)"
    using DayFromYear_approx(1)[of "y0 + 2"] unfolding y0_def by (simp add: algebra_simps)
  then have hi: "d < DayFromYear (y0 + 2)"
    using a by linarith
  have e: "y0 - 1 + 1 = y0" "y0 + 1 + 1 = y0 + 2" by simp_all
  have "YearFromDay d = (if d < DayFromYear y0 then y0 - 1
         else if DayFromYear (y0 + 1) \<le> d then y0 + 1 else y0)"
    unfolding YearFromDay_def y0_def q_def Let_def by simp
  then show ?thesis
    using lo hi by (simp add: e)
qed

lemma DayFromYear_mono_nat: "DayFromYear y + 365 * int n \<le> DayFromYear (y + int n)"
proof (induction n)
  case 0
  then show ?case by simp
next
  case (Suc n)
  have "DayFromYear (y + int (Suc n)) = DayFromYear (y + int n) + DaysInYear (y + int n)"
    using DayFromYear_step[of "y + int n"] by (simp add: algebra_simps)
  then show ?case
    using Suc DaysInYear_cases[of "y + int n"] by auto
qed

lemma DayFromYear_mono: "y \<le> y' \<Longrightarrow> DayFromYear y \<le> DayFromYear y'"
  using DayFromYear_mono_nat[of y "nat (y' - y)"] by simp

lemma YearFromDay_unique:
  assumes "DayFromYear y \<le> d" and "d < DayFromYear (y + 1)"
  shows "YearFromDay d = y"
proof (rule ccontr)
  assume ne: "YearFromDay d \<noteq> y"
  note b = YearFromDay_bounds[of d]
  show False
  proof (cases "YearFromDay d < y")
    case True
    then have "DayFromYear (YearFromDay d + 1) \<le> DayFromYear y"
      by (intro DayFromYear_mono) simp
    with b assms show False by linarith
  next
    case False
    with ne have "y + 1 \<le> YearFromDay d" by simp
    then have "DayFromYear (y + 1) \<le> DayFromYear (YearFromDay d)"
      by (rule DayFromYear_mono)
    with b assms show False by linarith
  qed
qed

subsection \<open>Days and the time within a day\<close>

lemma msPerDay_pos: "0 < msPerDay"
  by (simp add: msPerDay_def)

lemma TimeWithinDay_range: "0 \<le> TimeWithinDay t" "TimeWithinDay t < msPerDay"
  using msPerDay_pos by (simp_all add: TimeWithinDay_def)

lemma MakeDate_Day [simp]: "MakeDate (Day t) (TimeWithinDay t) = t"
  by (simp add: MakeDate_def Day_def TimeWithinDay_def)

lemma Day_MakeDate:
  assumes "0 \<le> w" and "w < msPerDay"
  shows "Day (MakeDate D w) = D" and "TimeWithinDay (MakeDate D w) = w"
proof -
  have e: "MakeDate D w = msPerDay * D + w" by (simp add: MakeDate_def mult.commute)
  show "Day (MakeDate D w) = D"
    unfolding Day_def e using assms by (intro int_div_pos_eq[where r = w]) simp_all
  show "TimeWithinDay (MakeDate D w) = w"
    unfolding TimeWithinDay_def e using assms by (intro int_mod_pos_eq[where q = D]) simp_all
qed

lemma Day_shift: "Day (t + k * msPerDay) = Day t + k"
  using msPerDay_pos by (simp add: Day_def)

lemma TimeWithinDay_shift: "TimeWithinDay (t + k * msPerDay) = TimeWithinDay t"
  by (simp add: TimeWithinDay_def)

lemma MakeDate_shift: "MakeDate (Day t + k) (TimeWithinDay t) = t + k * msPerDay"
proof -
  have "MakeDate (Day t + k) (TimeWithinDay t) = MakeDate (Day t) (TimeWithinDay t) + k * msPerDay"
    by (simp add: MakeDate_def algebra_simps)
  then show ?thesis by simp
qed

lemma MakeTime_fields:
  "MakeTime (HourFromTime t) (MinFromTime t) (SecFromTime t) (msFromTime t) = TimeWithinDay t"
proof -
  define s where "s = t div 1000"
  define m where "m = s div 60"
  define hh where "hh = m div 60"
  have t: "t = 1000 * s + t mod 1000" unfolding s_def by simp
  have s: "s = 60 * m + s mod 60" unfolding m_def by simp
  have m: "m = 60 * hh + m mod 60" unfolding hh_def by simp
  have hh: "hh = 24 * (hh div 24) + hh mod 24" by simp
  have dm: "t div 60000 = m"
    using zdiv_zmult2_eq[of 60 t 1000] unfolding m_def s_def by simp
  have dh: "t div 3600000 = hh"
    using zdiv_zmult2_eq[of 60 t 60000] dm unfolding hh_def by simp
  have dd: "t div 86400000 = hh div 24"
    using zdiv_zmult2_eq[of 24 t 3600000] dh by simp
  have "t mod 86400000 = t - 86400000 * (t div 86400000)"
    by (simp add: minus_mult_div_eq_mod)
  also have "\<dots> = t - 86400000 * (hh div 24)" using dd by simp
  finally have twd: "TimeWithinDay t = t - 86400000 * (hh div 24)"
    by (simp add: TimeWithinDay_def msPerDay_def)
  have mt: "MakeTime (HourFromTime t) (MinFromTime t) (SecFromTime t) (msFromTime t)
      = (hh mod 24) * 3600000 + (m mod 60) * 60000 + (s mod 60) * 1000 + t mod 1000"
    by (simp add: MakeTime_def HourFromTime_def MinFromTime_def SecFromTime_def msFromTime_def
        msPerHour_def msPerMinute_def msPerSecond_def dm dh s_def)
  define a where "a = hh mod 24"
  define b where "b = m mod 60"
  define c where "c = s mod 60"
  define e where "e = t mod 1000"
  define q where "q = hh div 24"
  have "a * 3600000 + b * 60000 + c * 1000 + e = t - 86400000 * q"
    using t s m hh unfolding a_def b_def c_def e_def q_def by linarith
  then show ?thesis unfolding mt twd a_def b_def c_def e_def q_def by simp
qed


subsection \<open>Months and days of the month\<close>

lemma YearFromDay_offset:
  assumes "0 \<le> x" and "x < DaysInYear y"
  shows "YearFromDay (DayFromYear y + x) = y"
  using assms by (intro YearFromDay_unique) (simp_all add: DayFromYear_step)

lemma DayWithinYear_range:
  "0 \<le> DayWithinYear t" "DayWithinYear t < DaysInYear (YearFromTime t)"
  using YearFromDay_bounds[of "Day t"] DayFromYear_step[of "YearFromTime t"]
  by (simp_all add: DayWithinYear_def YearFromTime_def)

lemma InLeapYear_cases: "InLeapYear t = 0 \<or> InLeapYear t = 1"
  by (simp add: InLeapYear_def)

lemma DayWithinYear_less: "DayWithinYear t < 365 + InLeapYear t"
  using DayWithinYear_range(2)[of t] DaysInYear_cases[of "YearFromTime t"]
  by (auto simp: InLeapYear_def)

lemma MonthFromTime_range: "0 \<le> MonthFromTime t" "MonthFromTime t \<le> 11"
  by (simp_all add: MonthFromTime_def Let_def)

lemma DayWithinYear_decomp:
  "DayWithinYear t = FirstDayOfMonth (InLeapYear t) (MonthFromTime t) + DateFromTime t - 1"
  by (simp add: DateFromTime_def MonthFromTime_def FirstDayOfMonth_def Let_def)

lemma MakeDay_fields:
  "MakeDay (YearFromTime t) (MonthFromTime t) (DateFromTime t + k) = Day t + k"
proof -
  have m: "MonthFromTime t div 12 = 0" "MonthFromTime t mod 12 = MonthFromTime t"
    using MonthFromTime_range[of t] by simp_all
  have "MakeDay (YearFromTime t) (MonthFromTime t) (DateFromTime t + k)
      = DayFromYear (YearFromTime t) + FirstDayOfMonth (InLeapYear t) (MonthFromTime t)
        + (DateFromTime t + k) - 1"
    by (simp add: MakeDay_def m InLeapYear_def Let_def)
  also have "\<dots> = DayFromYear (YearFromTime t) + DayWithinYear t + k"
    using DayWithinYear_decomp[of t] by simp
  also have "\<dots> = Day t + k" by (simp add: DayWithinYear_def)
  finally show ?thesis .
qed

lemma DateFromTime_range:
  "1 \<le> DateFromTime t" "DateFromTime t \<le> DaysInMonth (YearFromTime t) (MonthFromTime t)"
proof -
  define d where "d = DayWithinYear t"
  define l where "l = InLeapYear t"
  have d: "0 \<le> d" "d < 365 + l" and l: "l = 0 \<or> l = 1"
    using DayWithinYear_range(1)[of t] DayWithinYear_less[of t] InLeapYear_cases[of t]
    unfolding d_def l_def by simp_all
  have ly: "(DaysInYear (YearFromTime t) = 366) = (l = 1)"
    unfolding l_def InLeapYear_def by simp
  show "1 \<le> DateFromTime t"
    using d l unfolding DateFromTime_def MonthFromTime_def Let_def
      d_def[symmetric] l_def[symmetric] by auto
  show "DateFromTime t \<le> DaysInMonth (YearFromTime t) (MonthFromTime t)"
    using d l unfolding DateFromTime_def MonthFromTime_def DaysInMonth_def Let_def ly
      d_def[symmetric] l_def[symmetric] by auto
qed

text \<open>The fields of a day given by year, month and a day that exists in that month.\<close>

lemma fields_of_day:
  assumes mn: "0 \<le> mn" "mn \<le> 11" and dt: "1 \<le> dt" "dt \<le> DaysInMonth y mn"
    and day: "Day t = DayFromYear y + FirstDayOfMonth (if DaysInYear y = 366 then 1 else 0) mn + dt - 1"
  shows "YearFromTime t = y" and "MonthFromTime t = mn" and "DateFromTime t = dt"
proof -
  define l :: int where "l = (if DaysInYear y = 366 then 1 else 0)"
  define x where "x = FirstDayOfMonth l mn + dt - 1"
  have l: "l = 0 \<or> l = 1" by (simp add: l_def)
  have dy: "DaysInYear y = 365 + l" using DaysInYear_cases[of y] by (auto simp: l_def)
  have dim: "DaysInMonth y mn =
     (if mn = 1 then 28 + l else if mn = 3 \<or> mn = 5 \<or> mn = 8 \<or> mn = 10 then 30 else 31)"
    by (simp add: DaysInMonth_def l_def)
  from mn consider "mn = 0" | "mn = 1" | "mn = 2" | "mn = 3" | "mn = 4" | "mn = 5" | "mn = 6"
    | "mn = 7" | "mn = 8" | "mn = 9" | "mn = 10" | "mn = 11" by atomize_elim arith
  note cases_mn = this
  have x: "0 \<le> x" "x < 365 + l"
    using cases_mn dt l unfolding x_def dim
    by (cases; simp add: FirstDayOfMonth_def; linarith)+
  have "Day t = DayFromYear y + x" using day by (simp add: x_def l_def)
  then have yr: "YearFromDay (Day t) = y"
    using YearFromDay_offset[of x y] x dy by simp
  then show Y: "YearFromTime t = y" by (simp add: YearFromTime_def)
  have dwy: "DayWithinYear t = x"
    using \<open>Day t = DayFromYear y + x\<close> Y by (simp add: DayWithinYear_def)
  have il: "InLeapYear t = l" by (simp add: InLeapYear_def Y l_def)
  show M: "MonthFromTime t = mn"
    unfolding MonthFromTime_def Let_def dwy il
    using cases_mn dt l unfolding x_def dim
    by (cases; simp add: FirstDayOfMonth_def; linarith)
  show "DateFromTime t = dt"
    using DayWithinYear_decomp[of t] unfolding dwy il M x_def by simp
qed

lemma FirstDayOfMonth_next:
  assumes "0 \<le> mn" "mn \<le> 10"
  shows "FirstDayOfMonth (if DaysInYear y = 366 then 1 else 0) (mn + 1)
       = FirstDayOfMonth (if DaysInYear y = 366 then 1 else 0) mn + DaysInMonth y mn"
proof -
  from assms consider "mn = 0" | "mn = 1" | "mn = 2" | "mn = 3" | "mn = 4" | "mn = 5" | "mn = 6"
    | "mn = 7" | "mn = 8" | "mn = 9" | "mn = 10" by atomize_elim arith
  then show ?thesis
    by cases (simp_all add: FirstDayOfMonth_def DaysInMonth_def)
qed


section \<open>Properties of strings and patterns\<close>

lemmas string_defs = toLowerCase_def toLowerChar_def isSpace_def isDigit_def trim_def
lemmas rx_defs = lit_def spaces1_def digits1_def eos_def opt_def consumed_def match0_def
lemmas pattern_defs = keywordPatterns_def unitWord_def futurePattern_def pastPattern_def
  weekdayPattern_def weekdays_def periodRegex_def periodPatterns_def timePatterns_def

subsection \<open>Characters\<close>

lemma of_char_Char_nat:
  "(of_char (Char b0 b1 b2 b3 b4 b5 b6 b7) :: nat) =
     of_bool b0 + 2 * of_bool b1 + 4 * of_bool b2 + 8 * of_bool b3 + 16 * of_bool b4
     + 32 * of_bool b5 + 64 * of_bool b6 + 128 * of_bool b7"
  by (simp add: of_char_def)

lemma of_bool_le1: "(of_bool b :: nat) \<le> 1"
  by simp

text \<open>Setting bit 5 is adding 32 on the two ranges of capital letters.\<close>

lemma of_char_toLowerChar:
  "(of_char (toLowerChar c) :: nat) =
     (let n = (of_char c :: nat)
      in if (65 \<le> n \<and> n \<le> 90) \<or> (192 \<le> n \<and> n \<le> 222 \<and> n \<noteq> 215) then n + 32 else n)"
proof (cases c)
  case (Char b0 b1 b2 b3 b4 b5 b6 b7)
  define lo :: nat where
    "lo = of_bool b0 + 2 * of_bool b1 + 4 * of_bool b2 + 8 * of_bool b3 + 16 * of_bool b4"
  have lo: "lo \<le> 31"
    using of_bool_le1[of b0] of_bool_le1[of b1] of_bool_le1[of b2] of_bool_le1[of b3]
      of_bool_le1[of b4] unfolding lo_def by linarith
  have g: "(of_char (Char b0 b1 b2 b3 b4 x5 x6 x7) :: nat) =
      lo + 32 * of_bool x5 + 64 * of_bool x6 + 128 * of_bool x7" for x5 x6 x7
    unfolding of_char_Char_nat lo_def by simp
  show ?thesis
    unfolding toLowerChar_def Let_def Char
    using lo by (cases b5; cases b6; cases b7) (simp_all add: g del: of_char_Char)
qed

lemma isSpace_toLowerChar [simp]: "isSpace (toLowerChar c) = isSpace c"
  unfolding isSpace_def of_char_toLowerChar Let_def by auto

lemma isDigit_toLowerChar [simp]: "isDigit (toLowerChar c) = isDigit c"
  unfolding isDigit_def of_char_toLowerChar Let_def by auto

lemma toLowerCase_append [simp]: "toLowerCase (a @ b) = toLowerCase a @ toLowerCase b"
  by (simp add: toLowerCase_def)

lemma length_toLowerCase [simp]: "length (toLowerCase s) = length s"
  by (simp add: toLowerCase_def)

subsection \<open>Matchers\<close>

lemma consumed_append [simp]: "consumed (c @ r) r = c"
  by (simp add: consumed_def)

lemma consumed_Nil [simp]: "consumed s [] = s"
  by (simp add: consumed_def)

lemma lit_Some_iff: "lit p s = Some r \<longleftrightarrow> (\<exists>c. s = c @ r \<and> toLowerCase c = p)"
proof
  assume "lit p s = Some r"
  then have a: "toLowerCase (take (length p) s) = p" and r: "r = drop (length p) s"
    by (auto simp: lit_def split: if_splits)
  have "s = take (length p) s @ r" using r by simp
  with a show "\<exists>c. s = c @ r \<and> toLowerCase c = p" by blast
next
  assume "\<exists>c. s = c @ r \<and> toLowerCase c = p"
  then obtain c where c: "s = c @ r" "toLowerCase c = p" by blast
  then have "length c = length p" by (metis length_toLowerCase)
  then show "lit p s = Some r" using c by (simp add: lit_def)
qed

lemma lit_append [simp]: "toLowerCase c = p \<Longrightarrow> lit p (c @ r) = Some r"
  by (auto simp: lit_Some_iff)

lemma dropWhile_run:
  assumes "\<forall>x \<in> set c. P x" and "r = [] \<or> \<not> P (hd r)"
  shows "dropWhile P (c @ r) = r"
proof -
  have "dropWhile P (c @ r) = dropWhile P r"
    using assms(1) by (simp add: dropWhile_append)
  also have "\<dots> = r" using assms(2) by (cases r) auto
  finally show ?thesis .
qed

lemma run_Some_iff:
  "(if s \<noteq> [] \<and> P (hd s) then Some (dropWhile P s) else None) = Some r \<longleftrightarrow>
     (\<exists>c. s = c @ r \<and> c \<noteq> [] \<and> (\<forall>x \<in> set c. P x) \<and> (r = [] \<or> \<not> P (hd r)))"
proof
  assume a: "(if s \<noteq> [] \<and> P (hd s) then Some (dropWhile P s) else None) = Some r"
  then have s: "s \<noteq> []" "P (hd s)" and r: "r = dropWhile P s"
    by (auto split: if_splits)
  have 1: "s = takeWhile P s @ r" using r by simp
  have 2: "takeWhile P s \<noteq> []" using s by (cases s) auto
  have 3: "\<forall>x \<in> set (takeWhile P s). P x" by (auto dest: set_takeWhileD)
  have 4: "r = [] \<or> \<not> P (hd r)" unfolding r by (metis hd_dropWhile)
  show "\<exists>c. s = c @ r \<and> c \<noteq> [] \<and> (\<forall>x \<in> set c. P x) \<and> (r = [] \<or> \<not> P (hd r))"
    using 1 2 3 4 by blast
next
  assume "\<exists>c. s = c @ r \<and> c \<noteq> [] \<and> (\<forall>x \<in> set c. P x) \<and> (r = [] \<or> \<not> P (hd r))"
  then obtain c where c: "s = c @ r" "c \<noteq> []" "\<forall>x \<in> set c. P x" "r = [] \<or> \<not> P (hd r)"
    by blast
  have "P (hd s)" using c by (cases c) auto
  moreover have "s \<noteq> []" using c by simp
  moreover have "dropWhile P s = r" unfolding c(1) using c(3,4) by (rule dropWhile_run)
  ultimately show "(if s \<noteq> [] \<and> P (hd s) then Some (dropWhile P s) else None) = Some r"
    by simp
qed

lemma spaces1_Some_iff:
  "spaces1 s = Some r \<longleftrightarrow>
     (\<exists>c. s = c @ r \<and> c \<noteq> [] \<and> (\<forall>x \<in> set c. isSpace x) \<and> (r = [] \<or> \<not> isSpace (hd r)))"
  unfolding spaces1_def by (rule run_Some_iff)

lemma digits1_Some_iff:
  "digits1 s = Some r \<longleftrightarrow>
     (\<exists>c. s = c @ r \<and> c \<noteq> [] \<and> (\<forall>x \<in> set c. isDigit x) \<and> (r = [] \<or> \<not> isDigit (hd r)))"
  unfolding digits1_def by (rule run_Some_iff)

lemma eos_Some_iff [simp]: "eos s = Some r \<longleftrightarrow> s = [] \<and> r = []"
  by (auto simp: eos_def)

lemma alts_map_Some:
  "alts (map f ws) s = Some r \<Longrightarrow> \<exists>w \<in> set ws. f w s = Some r"
  by (induction ws) (auto split: option.splits)

lemma seqs_last_eos:
  "seqs (ms @ [eos]) s = Some r \<Longrightarrow> r = []"
  by (induction ms arbitrary: s) (auto split: option.splits)

lemma suffixing_basic [simp]:
  "suffixing (lit p)" "suffixing spaces1" "suffixing digits1" "suffixing eos"
  unfolding suffixing_def
  by (auto simp: lit_Some_iff spaces1_Some_iff digits1_Some_iff)

lemma suffixing_seqs: "(\<forall>m \<in> set ms. suffixing m) \<Longrightarrow> suffixing (seqs ms)"
proof (induction ms)
  case Nil
  then show ?case by (simp add: suffixing_def)
next
  case (Cons m ms)
  then have m: "suffixing m" and ms: "suffixing (seqs ms)" by simp_all
  show ?case
    unfolding suffixing_def
  proof (intro allI impI)
    fix s r assume "seqs (m # ms) s = Some r"
    then obtain r1 where "m s = Some r1" "seqs ms r1 = Some r"
      by (auto split: option.splits)
    then obtain c1 c2 where "s = c1 @ r1" "r1 = c2 @ r"
      using m ms unfolding suffixing_def by blast
    then have "s = (c1 @ c2) @ r" by simp
    then show "\<exists>c. s = c @ r" by blast
  qed
qed

lemma suffixing_alts: "(\<forall>m \<in> set ms. suffixing m) \<Longrightarrow> suffixing (alts ms)"
proof (induction ms)
  case Nil
  then show ?case by (simp add: suffixing_def)
next
  case (Cons m ms)
  then have m: "suffixing m" and ms: "suffixing (alts ms)" by simp_all
  show ?case
    unfolding suffixing_def
  proof (intro allI impI)
    fix s r assume a: "alts (m # ms) s = Some r"
    show "\<exists>c. s = c @ r"
    proof (cases "m s")
      case None
      with a ms show ?thesis unfolding suffixing_def by simp
    next
      case (Some r')
      with a m show ?thesis unfolding suffixing_def by simp
    qed
  qed
qed

lemma suffixing_opt: "suffixing m \<Longrightarrow> suffixing (opt m)"
  unfolding suffixing_def opt_def by (auto split: option.splits)

lemma suffixingD: "suffixing m \<Longrightarrow> m s = Some r \<Longrightarrow> s = consumed s r @ r"
  unfolding suffixing_def by (metis consumed_append)

subsection \<open>The unit words\<close>

lemma unitAlt_Some:
  assumes "seqs [lit w, opt (lit ''s'')] s = Some r"
  shows "\<exists>c. s = c @ r \<and> (toLowerCase c = w \<or> toLowerCase c = w @ ''s'')"
proof -
  from assms obtain r1 where 1: "lit w s = Some r1" and 2: "opt (lit ''s'') r1 = Some r"
    by (auto split: option.splits)
  from 1 obtain c1 where c1: "s = c1 @ r1" "toLowerCase c1 = w"
    by (auto simp: lit_Some_iff)
  show ?thesis
  proof (cases "lit ''s'' r1")
    case None
    with 2 have "r = r1" by (simp add: opt_def)
    with c1 show ?thesis by blast
  next
    case (Some r2)
    with 2 have "r = r2" by (simp add: opt_def)
    with Some obtain c2 where "r1 = c2 @ r" "toLowerCase c2 = ''s''"
      by (auto simp: lit_Some_iff)
    with c1 have "s = (c1 @ c2) @ r" "toLowerCase (c1 @ c2) = w @ ''s''" by simp_all
    then show ?thesis by blast
  qed
qed

lemma unitWord_Some:
  assumes "unitWord s = Some r"
  shows "\<exists>c w. s = c @ r
           \<and> w \<in> set [''millisecond'', ''second'', ''minute'', ''hour'', ''day'', ''week'', ''month'', ''year'']
           \<and> (toLowerCase c = w \<or> toLowerCase c = w @ ''s'')"
proof -
  from assms obtain w where
    w: "w \<in> set [''millisecond'', ''second'', ''minute'', ''hour'', ''day'', ''week'', ''month'', ''year'']"
    and "seqs [lit w, opt (lit ''s'')] s = Some r"
    unfolding unitWord_def by (blast dest: alts_map_Some)
  then show ?thesis using unitAlt_Some by blast
qed

lemma normalizeTimeUnit_spelling:
  assumes "w \<in> set [''millisecond'', ''second'', ''minute'', ''hour'', ''day'', ''week'', ''month'', ''year'']"
    and "toLowerCase c = w \<or> toLowerCase c = w @ ''s''"
  shows "\<exists>u. normalizeTimeUnit c = Inr u"
  using assms by (auto simp: normalizeTimeUnit_def dropFinalS_def)

lemma futurePattern_unit:
  assumes "futurePattern s = Some (m0, m1, m2)"
  shows "\<exists>u. normalizeTimeUnit m2 = Inr u"
proof -
  from assms obtain r2 r3 where "unitWord r2 = Some r3" "m2 = consumed r2 r3"
    unfolding futurePattern_def by (auto simp: bind_eq_Some_conv)
  then show ?thesis
    using unitWord_Some[of r2 r3] normalizeTimeUnit_spelling by fastforce
qed

lemma pastPattern_unit:
  assumes "pastPattern s = Some (m0, m1, m2)"
  shows "\<exists>u. normalizeTimeUnit m2 = Inr u"
proof -
  from assms obtain r2 r3 where "unitWord r2 = Some r3" "m2 = consumed r2 r3"
    unfolding pastPattern_def by (auto simp: bind_eq_Some_conv)
  then show ?thesis
    using unitWord_Some[of r2 r3] normalizeTimeUnit_spelling by fastforce
qed


subsection \<open>\<^verbatim>\<open>trim\<close> and \<^verbatim>\<open>replace\<close>\<close>

lemma trim_Nil [simp]: "trim [] = []"
  by (simp add: trim_def)

lemma dropWhile_id_hd: "xs = [] \<or> \<not> P (hd xs) \<Longrightarrow> dropWhile P xs = xs"
  by (cases xs) auto

lemma trim_noop:
  assumes "s = [] \<or> (\<not> isSpace (hd s) \<and> \<not> isSpace (last s))"
  shows "trim s = s"
proof (cases "s = []")
  case True
  then show ?thesis by simp
next
  case False
  with assms have h: "\<not> isSpace (hd s)" and l: "\<not> isSpace (last s)" by simp_all
  have 1: "dropWhile isSpace s = s" using h by (intro dropWhile_id_hd) simp
  have "hd (rev s) = last s" using False by (simp add: hd_rev)
  then have 2: "dropWhile isSpace (rev s) = rev s" using l by (intro dropWhile_id_hd) simp
  show ?thesis by (simp add: trim_def 1 2)
qed

lemma trim_ends: "trim x = [] \<or> (\<not> isSpace (hd (trim x)) \<and> \<not> isSpace (last (trim x)))"
proof (cases "trim x = []")
  case True
  then show ?thesis by simp
next
  case False
  define y where "y = dropWhile isSpace x"
  define z where "z = dropWhile isSpace (rev y)"
  have t: "trim x = rev z" by (simp add: trim_def y_def z_def)
  with False have z: "z \<noteq> []" by simp
  have hz: "\<not> isSpace (hd z)" using z unfolding z_def by (metis hd_dropWhile)
  have "\<exists>c. rev y = c @ z" unfolding z_def by (metis takeWhile_dropWhile_id)
  then obtain c where c: "rev y = c @ z" by blast
  then have y: "y = rev z @ rev c" by (metis rev_append rev_rev_ident)
  have "y \<noteq> []" using y z by simp
  then have "\<not> isSpace (hd y)" unfolding y_def by (metis hd_dropWhile)
  moreover have "hd y = hd (rev z)" using y z by simp
  moreover have "last (rev z) = hd z" using z by (simp add: last_rev)
  ultimately show ?thesis using hz t by simp
qed

lemma trim_word_spaces:
  assumes "kw \<noteq> []" and "\<not> isSpace (hd kw)" and "\<not> isSpace (last kw)"
    and "\<forall>c \<in> set ws. isSpace c"
  shows "trim (kw @ ws) = kw"
proof -
  have "hd (kw @ ws) = hd kw" using assms(1) by simp
  then have 1: "dropWhile isSpace (kw @ ws) = kw @ ws"
    using assms(2) by (intro dropWhile_id_hd) simp
  have "hd (rev kw) = last kw" using assms(1) by (simp add: hd_rev)
  then have "rev kw = [] \<or> \<not> isSpace (hd (rev kw))" using assms(3) by simp
  then have 2: "dropWhile isSpace (rev ws @ rev kw) = rev kw"
    using assms(4) by (intro dropWhile_run) auto
  show ?thesis by (simp add: trim_def 1 2)
qed

lemma replace_prefix [simp]: "replace c [] (c @ r) = r"
proof (cases "c @ r")
  case Nil
  then show ?thesis by simp
next
  case (Cons a list)
  have "take (length c) (c @ r) = c" "drop (length c) (c @ r) = r" by simp_all
  then show ?thesis unfolding Cons by simp
qed

lemma replace_self [simp]: "replace s [] s = []"
  using replace_prefix[of s "[]"] by simp

subsection \<open>Decimal numerals\<close>

lemma digitChar_props:
  assumes "d < 10"
  shows "isDigit (digitChar d)" and "digitVal (digitChar d) = int d"
    and "\<not> isSpace (digitChar d)"
proof -
  from assms consider "d = 0" | "d = 1" | "d = 2" | "d = 3" | "d = 4" | "d = 5" | "d = 6"
    | "d = 7" | "d = 8" | "d = 9" by atomize_elim arith
  then show "isDigit (digitChar d)" and "digitVal (digitChar d) = int d"
    and "\<not> isSpace (digitChar d)"
    by (cases; simp add: digitChar_def isDigit_def digitVal_def isSpace_def)+
qed

declare decimal.simps [simp del]

lemma decimal_digits: "\<forall>c \<in> set (decimal n). isDigit c"
proof (induction n rule: decimal.induct)
  case (1 n)
  show ?case
  proof (cases "n < 10")
    case True
    then show ?thesis by (subst decimal.simps) (simp add: digitChar_props)
  next
    case False
    then show ?thesis using 1 by (subst decimal.simps) (simp add: digitChar_props)
  qed
qed

lemma decimal_nonempty: "decimal n \<noteq> []"
  by (subst decimal.simps) simp

lemma decimal_value: "foldl (\<lambda>a c. 10 * a + digitVal c) 0 (decimal n) = int n"
proof (induction n rule: decimal.induct)
  case (1 n)
  show ?case
  proof (cases "n < 10")
    case True
    then show ?thesis by (subst decimal.simps) (simp add: digitChar_props)
  next
    case False
    have "int n = 10 * (int n div 10) + int n mod 10" by simp
    then have "int n = 10 * int (n div 10) + int (n mod 10)"
      by (simp add: zdiv_int zmod_int)
    then show ?thesis
      using False 1 by (subst decimal.simps) (simp add: digitChar_props)
  qed
qed

lemma digit_not_space: "isDigit c \<Longrightarrow> \<not> isSpace c"
  by (auto simp: isDigit_def isSpace_def)

lemma parseInt_digits:
  assumes "ds \<noteq> []" and "\<forall>c \<in> set ds. isDigit c"
  shows "parseInt ds = Some (foldl (\<lambda>a c. 10 * a + digitVal c) 0 ds)"
proof -
  have "\<not> isSpace (hd ds)" using assms by (simp add: digit_not_space)
  then have 1: "dropWhile isSpace ds = ds" by (intro dropWhile_id_hd) simp
  have 2: "takeWhile isDigit ds = ds" using assms(2) by (simp add: takeWhile_eq_all_conv)
  show ?thesis using assms(1) by (simp add: parseInt_def 1 2)
qed

lemma parseInt_decimal [simp]: "parseInt (decimal n) = Some (int n)"
  using parseInt_digits[OF decimal_nonempty decimal_digits] by (simp add: decimal_value)


section \<open>Properties of Date objects and the date utilities\<close>

lemma TimeClip_inTimeRange [simp]: "inTimeRange tv \<Longrightarrow> TimeClip tv = Some tv"
  by (simp add: TimeClip_def inTimeRange_def)

lemma TimeClip_Some: "TimeClip tv = Some r \<Longrightarrow> r = tv \<and> inTimeRange tv"
  by (simp add: TimeClip_def inTimeRange_def split: if_splits)

lemma toDate_OfDate [simp]: "toDate h (OfDate d) = Inr (NewDateOfDate d)"
  by (simp add: toDate_def)

lemma NewDateOfDate_inTimeRange [simp]:
  "inTimeRange tv \<Longrightarrow> NewDateOfDate (Date (Some tv)) = Date (Some tv)"
  by (simp add: NewDateOfDate_def)

lemma NewDateOfDate_None [simp]: "NewDateOfDate (Date None) = Date None"
  by (simp add: NewDateOfDate_def)

lemma NewDateOfDate_idem [simp]: "NewDateOfDate (NewDateOfDate d) = NewDateOfDate d"
  by (cases d) (auto simp: NewDateOfDate_def TimeClip_def split: option.splits)

lemma clone_OfDate [simp]: "clone h (OfDate d) = Inr (NewDateOfDate d)"
  by (simp add: clone_def)

text \<open>On a \<^verbatim>\<open>Date\<close> object none of the date utilities throws.\<close>

lemma add_OfDate_total: "\<exists>r. add h (OfDate d) amount unit = Inr r"
  by (simp add: add_def)

lemma subtract_OfDate_total: "\<exists>r. subtract h (OfDate d) amount unit = Inr r"
  by (simp add: subtract_def add_def)

lemma startOfDay_OfDate [simp]:
  "startOfDay h (OfDate d) = Inr (setHours4 h 0 0 0 0 (NewDateOfDate d))"
  by (simp add: startOfDay_def)

lemma endOfDay_OfDate [simp]:
  "endOfDay h (OfDate d) = Inr (setHours4 h 23 59 59 999 (NewDateOfDate d))"
  by (simp add: endOfDay_def)

lemma period_OfDate_total:
  "\<exists>r. startOfMonth h (OfDate d) = Inr r"
  "\<exists>r. endOfMonth h (OfDate d) = Inr r"
  "\<exists>r. startOfWeek h (OfDate d) w = Inr r"
  "\<exists>r. endOfWeek h (OfDate d) w = Inr r"
  by (simp_all add: startOfMonth_def endOfMonth_def startOfWeek_def endOfWeek_def Let_def)

subsection \<open>Setters that shift a field\<close>

lemmas getter_defs = getFullYear_def getMonth_def getDate_def getDay_def getHours_def
  getMinutes_def getSeconds_def getMilliseconds_def

lemma setDate_shift:
  "setDate h (nplus (getDate h (Date (Some tv))) (Some k)) (Date (Some tv))
     = Date (TimeClip (UTC h (LocalTime h tv + k * msPerDay)))"
  by (simp add: setDate_def getDate_def nplus_def Let_def MakeDay_fields MakeDate_shift)

lemma setDate_shift_minus:
  "setDate h (nminus (getDate h (Date (Some tv))) (Some k)) (Date (Some tv))
     = Date (TimeClip (UTC h (LocalTime h tv - k * msPerDay)))"
  using MakeDay_fields[of "LocalTime h tv" "- k"] MakeDate_shift[of "LocalTime h tv" "- k"]
  by (simp add: setDate_def getDate_def nminus_def Let_def)

lemma setHours4_day:
  "setHours4 h hh mm ss ms (Date (Some tv))
     = Date (TimeClip (UTC h (Day (LocalTime h tv) * msPerDay + MakeTime hh mm ss ms)))"
  by (simp add: setHours4_def Let_def MakeDate_def)

lemma MakeDate_time_shift:
  "MakeDate (Day t) (TimeWithinDay t + x) = t + x"
proof -
  have "MakeDate (Day t) (TimeWithinDay t + x) = MakeDate (Day t) (TimeWithinDay t) + x"
    by (simp add: MakeDate_def)
  then show ?thesis by simp
qed

lemma setMilliseconds_shift:
  "setMilliseconds h (nplus (getMilliseconds h (Date (Some tv))) (Some k)) (Date (Some tv))
     = Date (TimeClip (UTC h (LocalTime h tv + k)))"
proof -
  define t where "t = LocalTime h tv"
  have "MakeTime (HourFromTime t) (MinFromTime t) (SecFromTime t) (msFromTime t + k)
      = TimeWithinDay t + k"
    using MakeTime_fields[of t] by (simp add: MakeTime_def)
  then show ?thesis
    by (simp add: setMilliseconds_def getMilliseconds_def nplus_def Let_def t_def[symmetric]
        MakeDate_time_shift)
qed

lemma setSeconds_shift:
  "setSeconds h (nplus (getSeconds h (Date (Some tv))) (Some k)) (Date (Some tv))
     = Date (TimeClip (UTC h (LocalTime h tv + k * 1000)))"
proof -
  define t where "t = LocalTime h tv"
  have "MakeTime (HourFromTime t) (MinFromTime t) (SecFromTime t + k) (msFromTime t)
      = TimeWithinDay t + k * 1000"
    using MakeTime_fields[of t] by (simp add: MakeTime_def msPerSecond_def algebra_simps)
  then show ?thesis
    by (simp add: setSeconds_def getSeconds_def nplus_def Let_def t_def[symmetric]
        MakeDate_time_shift)
qed

lemma setMinutes_shift:
  "setMinutes h (nplus (getMinutes h (Date (Some tv))) (Some k)) (Date (Some tv))
     = Date (TimeClip (UTC h (LocalTime h tv + k * 60000)))"
proof -
  define t where "t = LocalTime h tv"
  have "MakeTime (HourFromTime t) (MinFromTime t + k) (SecFromTime t) (msFromTime t)
      = TimeWithinDay t + k * 60000"
    using MakeTime_fields[of t] by (simp add: MakeTime_def msPerMinute_def algebra_simps)
  then show ?thesis
    by (simp add: setMinutes_def getMinutes_def nplus_def Let_def t_def[symmetric]
        MakeDate_time_shift)
qed

lemma setHours_shift:
  "setHours h (nplus (getHours h (Date (Some tv))) (Some k)) (Date (Some tv))
     = Date (TimeClip (UTC h (LocalTime h tv + k * 3600000)))"
proof -
  define t where "t = LocalTime h tv"
  have "MakeTime (HourFromTime t + k) (MinFromTime t) (SecFromTime t) (msFromTime t)
      = TimeWithinDay t + k * 3600000"
    using MakeTime_fields[of t] by (simp add: MakeTime_def msPerHour_def algebra_simps)
  then show ?thesis
    by (simp add: setHours_def getHours_def nplus_def Let_def t_def[symmetric]
        MakeDate_time_shift)
qed

text \<open>Adding a unit of fixed length adds that many milliseconds to the local time.\<close>

lemma add_fixed:
  assumes "inTimeRange tv" and "unit \<noteq> UMonth" and "unit \<noteq> UYear"
  shows "add h (OfDate (Date (Some tv))) (Some k) unit
           = Inr (Date (TimeClip (UTC h (LocalTime h tv + k * unitMs unit))))"
  using assms
  by (cases unit)
    (simp_all add: add_def unitMs_def setMilliseconds_shift setSeconds_shift setMinutes_shift
      setHours_shift setDate_shift ntimes_def msPerDay_def mult.commute)

lemma setMonth_same:
  "setMonth h (nplus (getMonth h (Date (Some tv))) (Some 0)) (Date (Some tv))
     = Date (TimeClip (UTC h (LocalTime h tv)))"
  using MakeDay_fields[of "LocalTime h tv" 0]
  by (simp add: setMonth_def getMonth_def nplus_def Let_def)

lemma setFullYear_same:
  "setFullYear h (nplus (getFullYear h (Date (Some tv))) (Some 0)) (Date (Some tv))
     = Date (TimeClip (UTC h (LocalTime h tv)))"
  using MakeDay_fields[of "LocalTime h tv" 0]
  by (simp add: setFullYear_def getFullYear_def nplus_def Let_def)

text \<open>
  Adding nothing goes through local time and back, whatever the unit: it changes nothing
  exactly when the time value is the one its own local time denotes.
\<close>

lemma add_zero:
  assumes "inTimeRange tv"
  shows "add h (OfDate (Date (Some tv))) (Some 0) unit
           = Inr (Date (TimeClip (UTC h (LocalTime h tv))))"
proof (cases "unit = UMonth \<or> unit = UYear")
  case False
  then show ?thesis using add_fixed[OF assms, of unit h 0] assms by simp
next
  case True
  then show ?thesis
    using assms by (auto simp: add_def setMonth_same setFullYear_same)
qed

lemma add_Invalid: "add h (OfDate (Date None)) amount unit = Inr (Date None)"
  by (cases unit)
    (simp_all add: add_def getter_defs nplus_def setMilliseconds_def setSeconds_def
      setMinutes_def setHours_def setDate_def setMonth_def setFullYear_def)


text \<open>On the example host local time is UTC.\<close>

lemma LocalTime_exampleHost [simp]: "LocalTime exampleHost t = t"
  by (simp add: LocalTime_def exampleHost_def)

lemma UTC_exampleHost [simp]: "UTC exampleHost t = t"
  by (simp add: UTC_def exampleHost_def)

section \<open>The shape of every parse result\<close>

lemma firstMatch_Some:
  "firstMatch ps s = Some (m0, v) \<Longrightarrow> \<exists>m. (m, v) \<in> set ps \<and> match0 m s = Some m0"
  by (induction ps) (auto split: option.splits)

lemma noMatch_sel [simp]:
  "date (noMatch s) = None" "confidence (noMatch s) = 0" "matched (noMatch s) = []"
  "remaining (noMatch s) = s"
  by (simp_all add: noMatch_def)

lemma parseRelativeKeywords_shape:
  "\<exists>r. parseRelativeKeywords h s d = Inr r
       \<and> (r = noMatch s \<or> date r \<noteq> None \<and> confidence r = 0.95)"
  by (auto simp: parseRelativeKeywords_def split: option.splits)

lemma parseRelativeTime_shape:
  "\<exists>r. parseRelativeTime h s d = Inr r
       \<and> (r = noMatch s \<or> date r \<noteq> None \<and> confidence r = 0.9)"
proof (cases "futurePattern s")
  case (Some m)
  obtain m0 m1 m2 where m: "m = (m0, m1, m2)" by (cases m) auto
  obtain u where u: "normalizeTimeUnit m2 = Inr u"
    using futurePattern_unit Some m by blast
  obtain r where r: "add h (OfDate d) (parseInt m1) u = Inr r"
    using add_OfDate_total by blast
  show ?thesis using Some m u r by (simp add: parseRelativeTime_def)
next
  case None
  show ?thesis
  proof (cases "pastPattern s")
    case (Some m)
    obtain m0 m1 m2 where m: "m = (m0, m1, m2)" by (cases m) auto
    obtain u where u: "normalizeTimeUnit m2 = Inr u"
      using pastPattern_unit Some m by blast
    obtain r where r: "subtract h (OfDate d) (parseInt m1) u = Inr r"
      using subtract_OfDate_total by blast
    show ?thesis using None Some m u r by (simp add: parseRelativeTime_def)
  next
    case None2: None
    with None show ?thesis by (simp add: parseRelativeTime_def)
  qed
qed

lemma parseWeekdays_shape:
  "\<exists>r. parseWeekdays h s d = Inr r
       \<and> (r = noMatch s \<or> date r \<noteq> None \<and> confidence r = 0.85)"
  by (auto simp: parseWeekdays_def Let_def split: option.splits)

lemma parseMonthReferences_shape:
  "\<exists>r. parseMonthReferences h s d = Inr r
       \<and> (r = noMatch s \<or> date r \<noteq> None \<and> confidence r = 0.8)"
proof (cases "firstMatch (periodPatterns h d) s")
  case None
  then show ?thesis by (simp add: parseMonthReferences_def)
next
  case (Some a)
  obtain m0 fn where a: "a = (m0, fn)" by (cases a) auto
  from Some a have "firstMatch (periodPatterns h d) s = Some (m0, fn)" by simp
  from firstMatch_Some[OF this] obtain m where "(m, fn) \<in> set (periodPatterns h d)"
    by blast
  then obtain x where "fn = Inr x"
    using period_OfDate_total[of h d] by (auto simp: periodPatterns_def)
  with Some a show ?thesis by (simp add: parseMonthReferences_def)
qed

lemma parseTimeExpressions_shape:
  "\<exists>r. parseTimeExpressions h s d = Inr r
       \<and> (r = noMatch s \<or> date r \<noteq> None \<and> confidence r = 0.75)"
  by (auto simp: parseTimeExpressions_def split: option.splits)

lemma parsers_shape:
  assumes "p \<in> set (parsers h)"
  shows "\<exists>r. p s d = Inr r
       \<and> (r = noMatch s \<or> date r \<noteq> None \<and> confidence r \<in> {0.95, 0.9, 0.85, 0.8, 0.75})"
proof -
  from assms consider "p = parseRelativeKeywords h" | "p = parseRelativeTime h"
    | "p = parseWeekdays h" | "p = parseMonthReferences h" | "p = parseTimeExpressions h"
    by (auto simp: parsers_def)
  then show ?thesis
  proof cases
    case 1 then show ?thesis using parseRelativeKeywords_shape[of h s d] by auto
  next
    case 2 then show ?thesis using parseRelativeTime_shape[of h s d] by auto
  next
    case 3 then show ?thesis using parseWeekdays_shape[of h s d] by auto
  next
    case 4 then show ?thesis using parseMonthReferences_shape[of h s d] by auto
  next
    case 5 then show ?thesis using parseTimeExpressions_shape[of h s d] by auto
  qed
qed

lemma tryParsers_shape:
  assumes "\<forall>p \<in> set ps. \<exists>r. p s d = Inr r
       \<and> (r = noMatch s \<or> date r \<noteq> None \<and> confidence r \<in> {0.95, 0.9, 0.85, 0.8, 0.75})"
  shows "tryParsers ps s d = Inr None
       \<or> (\<exists>r. tryParsers ps s d = Inr (Some r) \<and> date r \<noteq> None
             \<and> confidence r \<in> {0.95, 0.9, 0.85, 0.8, 0.75})"
  using assms
proof (induction ps)
  case Nil
  then show ?case by simp
next
  case (Cons p ps)
  then obtain r where r: "p s d = Inr r"
    "r = noMatch s \<or> date r \<noteq> None \<and> confidence r \<in> {0.95, 0.9, 0.85, 0.8, 0.75}"
    by fastforce
  show ?case
  proof (cases "date r = None")
    case True
    with r Cons show ?thesis by simp
  next
    case False
    with r show ?thesis by auto
  qed
qed

lemma parseNatural_shape:
  "\<exists>r. parseNatural h input options = Inr r
     \<and> (r = noMatch (normalizeInput input)
        \<or> date r \<noteq> None \<and> confidence r \<in> {0.95, 0.9, 0.85, 0.8, 0.75, 0.5})"
proof -
  define d where "d = (case defaultDate options of None \<Rightarrow> now h | Some d \<Rightarrow> d)"
  have "tryParsers (parsers h) (normalizeInput input) d = Inr None
       \<or> (\<exists>r. tryParsers (parsers h) (normalizeInput input) d = Inr (Some r) \<and> date r \<noteq> None
             \<and> confidence r \<in> {0.95, 0.9, 0.85, 0.8, 0.75})"
    by (intro tryParsers_shape ballI parsers_shape)
  then show ?thesis
    unfolding parseNatural_def d_def[symmetric] Let_def
    by (auto simp: )
qed


subsection \<open>The four patterns anchored at both ends\<close>

lemma seqs_eos2:
  "seqs [m1, eos] s = Some r \<Longrightarrow> r = []"
  by (auto split: option.splits)

lemma futurePattern_whole: "futurePattern s = Some (m0, m1, m2) \<Longrightarrow> m0 = s"
  unfolding futurePattern_def
  by (auto simp: bind_eq_Some_conv simp del: seqs.simps dest!: seqs_eos2)

lemma pastPattern_whole: "pastPattern s = Some (m0, m1, m2) \<Longrightarrow> m0 = s"
  unfolding pastPattern_def
  by (auto simp: bind_eq_Some_conv split: option.splits)

lemma weekdayPattern_whole: "weekdayPattern s = Some (m0, m1, m2) \<Longrightarrow> m0 = s"
  unfolding weekdayPattern_def by (auto simp: bind_eq_Some_conv)

lemma periodRegex_whole: "match0 (periodRegex hs p) s = Some m0 \<Longrightarrow> m0 = s"
proof -
  assume a: "match0 (periodRegex hs p) s = Some m0"
  then obtain r where r: "periodRegex hs p s = Some r" "m0 = consumed s r"
    by (auto simp: match0_def)
  have "periodRegex hs p = seqs ([alts (map lit hs), spaces1, lit ''of'', spaces1,
      opt (seqs [lit ''the'', spaces1]), lit p] @ [eos])"
    by (simp add: periodRegex_def)
  with r(1) have "r = []" using seqs_last_eos by metis
  with r show ?thesis by simp
qed

lemma periodPatterns_whole:
  assumes "firstMatch (periodPatterns h d) s = Some (m0, v)"
  shows "m0 = s"
proof -
  from firstMatch_Some[OF assms] obtain m where
    m: "(m, v) \<in> set (periodPatterns h d)" "match0 m s = Some m0" by blast
  from m(1) obtain hs p where "m = periodRegex hs p"
    by (auto simp: periodPatterns_def)
  with m(2) show ?thesis using periodRegex_whole by blast
qed

lemma timePatterns_whole:
  assumes "firstMatch timePatterns s = Some (m0, v)"
  shows "m0 = s"
proof -
  from firstMatch_Some[OF assms] obtain m where
    m: "(m, v) \<in> set timePatterns" "match0 m s = Some m0" by blast
  from m(1) obtain w where "m = seqs [lit w, eos]"
    by (auto simp: timePatterns_def)
  with m(2) obtain r where "seqs [lit w, eos] s = Some r" "m0 = consumed s r"
    by (auto simp: match0_def)
  then show ?thesis using seqs_eos2[of "lit w" s r] by simp
qed

lemma parseRelativeTime_whole:
  assumes "parseRelativeTime h s d = Inr r" and "date r \<noteq> None"
  shows "matched r = s \<and> remaining r = [] \<and> confidence r = 0.9"
  using assms futurePattern_whole[of s] pastPattern_whole[of s]
  by (auto simp: parseRelativeTime_def Let_def split: option.splits sum.splits)

lemma parseWeekdays_whole:
  assumes "parseWeekdays h s d = Inr r" and "date r \<noteq> None"
  shows "matched r = s \<and> remaining r = [] \<and> confidence r = 0.85"
  using assms weekdayPattern_whole[of s]
  by (auto simp: parseWeekdays_def Let_def split: option.splits if_splits)

lemma parseMonthReferences_whole:
  assumes "parseMonthReferences h s d = Inr r" and "date r \<noteq> None"
  shows "matched r = s \<and> remaining r = [] \<and> confidence r = 0.8"
  using assms periodPatterns_whole[of h d s]
  by (auto simp: parseMonthReferences_def split: option.splits sum.splits)

lemma parseTimeExpressions_whole:
  assumes "parseTimeExpressions h s d = Inr r" and "date r \<noteq> None"
  shows "matched r = s \<and> remaining r = [] \<and> confidence r = 0.75"
  using assms timePatterns_whole[of s]
  by (auto simp: parseTimeExpressions_def split: option.splits)


subsection \<open>The keyword patterns\<close>

lemma lower_word_ends:
  assumes "toLowerCase kw = w" and "w \<noteq> []" and "\<not> isSpace (hd w)" and "\<not> isSpace (last w)"
  shows "kw \<noteq> [] \<and> \<not> isSpace (hd kw) \<and> \<not> isSpace (last kw)"
proof -
  have ne: "kw \<noteq> []" using assms(1,2) by (auto simp: toLowerCase_def)
  have "hd w = toLowerChar (hd kw)" "last w = toLowerChar (last kw)"
    using assms(1) ne by (auto simp: toLowerCase_def hd_map last_map)
  with assms(3,4) ne show ?thesis by simp
qed

lemma keywordRegex_Some:
  assumes "seqs [m1, alts [spaces1, eos]] s = Some r"
    and "\<And>r1. m1 s = Some r1 \<Longrightarrow> \<exists>w \<in> set kws. lit w s = Some r1"
  shows "\<exists>kw ws. s = kw @ ws @ r \<and> toLowerCase kw \<in> set kws \<and> (\<forall>c \<in> set ws. isSpace c)
           \<and> (ws = [] \<longrightarrow> r = []) \<and> (r = [] \<or> \<not> isSpace (hd r))"
proof -
  from assms(1) obtain r1 where 1: "m1 s = Some r1"
    and 2: "alts [spaces1, eos] r1 = Some r"
    by (auto split: option.splits)
  from assms(2)[OF 1] obtain w where w: "w \<in> set kws" "lit w s = Some r1"
    by blast
  then obtain kw where kw: "s = kw @ r1" "toLowerCase kw = w"
    by (auto simp: lit_Some_iff)
  show ?thesis
  proof (cases "spaces1 r1")
    case None
    with 2 have "r1 = []" "r = []" by (auto split: option.splits)
    with kw w have "s = kw @ [] @ r \<and> toLowerCase kw \<in> set kws \<and> (\<forall>c \<in> set []. isSpace c)
           \<and> ([] = [] \<longrightarrow> r = []) \<and> (r = [] \<or> \<not> isSpace (hd r))" by simp
    then show ?thesis by blast
  next
    case (Some r')
    with 2 have "r' = r" by simp
    with Some obtain ws where "r1 = ws @ r" "ws \<noteq> []" "\<forall>c \<in> set ws. isSpace c"
      "r = [] \<or> \<not> isSpace (hd r)"
      by (auto simp: spaces1_Some_iff)
    with kw w have "s = kw @ ws @ r \<and> toLowerCase kw \<in> set kws \<and> (\<forall>c \<in> set ws. isSpace c)
           \<and> (ws = [] \<longrightarrow> r = []) \<and> (r = [] \<or> \<not> isSpace (hd r))" by simp
    then show ?thesis by blast
  qed
qed

lemma keywordPatterns_Some:
  assumes "firstMatch (keywordPatterns h) s = Some (m0, v)"
  shows "\<exists>kw ws r. s = kw @ ws @ r \<and> m0 = kw @ ws
           \<and> toLowerCase kw \<in> set [''today'', ''now'', ''tomorrow'', ''yesterday'']
           \<and> (\<forall>c \<in> set ws. isSpace c)
           \<and> (ws = [] \<longrightarrow> r = []) \<and> (r = [] \<or> \<not> isSpace (hd r))"
proof -
  from firstMatch_Some[OF assms] obtain m where
    m: "(m, v) \<in> set (keywordPatterns h)" "match0 m s = Some m0" by blast
  from m(2) obtain r where r: "m s = Some r" "m0 = consumed s r"
    by (auto simp: match0_def)
  have "m = seqs [alts [lit ''today'', lit ''now''], alts [spaces1, eos]]
        \<or> m = seqs [lit ''tomorrow'', alts [spaces1, eos]]
        \<or> m = seqs [lit ''yesterday'', alts [spaces1, eos]]"
    using m(1) by (auto simp: keywordPatterns_def)
  then have "\<exists>kw ws. s = kw @ ws @ r
        \<and> toLowerCase kw \<in> set [''today'', ''now'', ''tomorrow'', ''yesterday'']
        \<and> (\<forall>c \<in> set ws. isSpace c)
        \<and> (ws = [] \<longrightarrow> r = []) \<and> (r = [] \<or> \<not> isSpace (hd r))"
  proof (elim disjE)
    assume e: "m = seqs [alts [lit ''today'', lit ''now''], alts [spaces1, eos]]"
    show ?thesis
      by (rule keywordRegex_Some[OF r(1)[unfolded e]]) (auto split: option.splits)
  next
    assume e: "m = seqs [lit ''tomorrow'', alts [spaces1, eos]]"
    show ?thesis
      by (rule keywordRegex_Some[OF r(1)[unfolded e]]) auto
  next
    assume e: "m = seqs [lit ''yesterday'', alts [spaces1, eos]]"
    show ?thesis
      by (rule keywordRegex_Some[OF r(1)[unfolded e]]) auto
  qed
  then obtain kw ws where
    k: "s = kw @ ws @ r" "toLowerCase kw \<in> set [''today'', ''now'', ''tomorrow'', ''yesterday'']"
      "\<forall>c \<in> set ws. isSpace c"
      "ws = [] \<longrightarrow> r = []" "r = [] \<or> \<not> isSpace (hd r)" by blast
  have "m0 = kw @ ws" using r(2) k(1) consumed_append[of "kw @ ws" r] by simp
  with k show ?thesis by blast
qed

text \<open>On an input without white space at its ends the keyword recognizer splits the
  input into the keyword, the white space after it and the rest.\<close>

lemma parseRelativeKeywords_split:
  assumes "parseRelativeKeywords h s d = Inr r" and "date r \<noteq> None"
    and "s = [] \<or> (\<not> isSpace (hd s) \<and> \<not> isSpace (last s))"
  shows "\<exists>ws. s = matched r @ ws @ remaining r \<and> (\<forall>c \<in> set ws. isSpace c)
           \<and> (ws = []) = (remaining r = []) \<and> confidence r = 0.95
           \<and> toLowerCase (matched r) \<in> set [''today'', ''now'', ''tomorrow'', ''yesterday'']"
proof -
  from assms(1,2) obtain m0 v where f: "firstMatch (keywordPatterns h) s = Some (m0, v)"
    and r: "r = \<lparr>date = Some v, confidence = 0.95, matched = trim m0,
               remaining = trim (replace m0 [] s)\<rparr>"
    by (auto simp: parseRelativeKeywords_def split: option.splits)
  from keywordPatterns_Some[OF f] obtain kw ws rest where
    k: "s = kw @ ws @ rest" "m0 = kw @ ws"
       "toLowerCase kw \<in> set [''today'', ''now'', ''tomorrow'', ''yesterday'']"
       "\<forall>c \<in> set ws. isSpace c" "ws = [] \<longrightarrow> rest = []" "rest = [] \<or> \<not> isSpace (hd rest)"
    by blast
  have kwe: "kw \<noteq> [] \<and> \<not> isSpace (hd kw) \<and> \<not> isSpace (last kw)"
  proof -
    define w where "w = toLowerCase kw"
    have "w \<in> set [''today'', ''now'', ''tomorrow'', ''yesterday'']" using k(3) w_def by simp
    then have "w \<noteq> [] \<and> \<not> isSpace (hd w) \<and> \<not> isSpace (last w)"
      by (auto simp: isSpace_def)
    then show ?thesis using lower_word_ends[of kw w] w_def by blast
  qed
  have m: "matched r = kw" using r k(2,4) kwe by (simp add: trim_word_spaces)
  have "replace m0 [] s = rest" unfolding k(1,2) using replace_prefix[of "kw @ ws" rest] by simp
  then have rem0: "remaining r = trim rest" using r by simp
  have sne: "s \<noteq> []" using k(1) kwe by simp
  with assms(3) have ls: "\<not> isSpace (last s)" by simp
  show ?thesis
  proof (cases "rest = []")
    case True
    then have "last s = last (kw @ ws)" using k(1) by simp
    with ls k(4) kwe have "ws = []" by (cases "ws = []") auto
    with True m rem0 k show ?thesis using r by simp
  next
    case False
    then have "last s = last rest" using k(1) by simp
    with ls k(6) False have "trim rest = rest" by (intro trim_noop) auto
    with False m rem0 k show ?thesis using r by auto
  qed
qed


subsection \<open>Running the offset patterns on a phrase\<close>

text \<open>Evaluation rules that fire on character literals only.\<close>

lemma toLowerChar_Char:
  "toLowerChar (Char b0 b1 b2 b3 b4 b5 b6 b7) =
     (let n = (of_char (Char b0 b1 b2 b3 b4 b5 b6 b7) :: nat)
      in if (65 \<le> n \<and> n \<le> 90) \<or> (192 \<le> n \<and> n \<le> 222 \<and> n \<noteq> 215)
         then Char b0 b1 b2 b3 b4 True b6 b7
         else Char b0 b1 b2 b3 b4 b5 b6 b7)"
  unfolding toLowerChar_def by (simp only: char.case)

lemma isSpace_Char:
  "isSpace (Char b0 b1 b2 b3 b4 b5 b6 b7) =
     ((of_char (Char b0 b1 b2 b3 b4 b5 b6 b7) :: nat) \<in> {9, 10, 11, 12, 13, 32, 160})"
  by (rule isSpace_def)

lemma isDigit_Char:
  "isDigit (Char b0 b1 b2 b3 b4 b5 b6 b7) =
     (48 \<le> (of_char (Char b0 b1 b2 b3 b4 b5 b6 b7) :: nat)
      \<and> (of_char (Char b0 b1 b2 b3 b4 b5 b6 b7) :: nat) \<le> 57)"
  by (rule isDigit_def)

lemmas string_eval = toLowerCase_def toLowerChar_Char isSpace_Char isDigit_Char

lemma digits1_run:
  assumes "ds \<noteq> []" and "\<forall>c \<in> set ds. isDigit c" and "r = [] \<or> \<not> isDigit (hd r)"
  shows "digits1 (ds @ r) = Some r"
  using assms by (auto simp: digits1_Some_iff)

lemma lit_head_None:
  assumes "p \<noteq> []" and "s = [] \<or> toLowerChar (hd s) \<noteq> hd p"
  shows "lit p s = None"
proof (cases s)
  case Nil
  with assms(1) show ?thesis by (auto simp: lit_def toLowerCase_def)
next
  case (Cons a list)
  obtain b q where p: "p = b # q" using assms(1) by (cases p) auto
  have "toLowerChar a \<noteq> b" using assms(2) Cons p by simp
  then show ?thesis by (simp add: lit_def Cons p toLowerCase_def)
qed

lemma lit_digit_None:
  assumes "p \<noteq> []" and "\<not> isDigit (hd p)" and "s \<noteq> []" and "isDigit (hd s)"
  shows "lit p s = None"
proof -
  have "isDigit (toLowerChar (hd s))" using assms(4) by simp
  with assms(2) have "toLowerChar (hd s) \<noteq> hd p" by (metis (full_types))
  with assms(1) show ?thesis by (intro lit_head_None) simp_all
qed

lemma lit_space_None:
  assumes "p \<noteq> []" and "\<not> isSpace (hd p)" and "s = [] \<or> isSpace (hd s)"
  shows "lit p s = None"
proof (cases "s = []")
  case True
  with assms(1) show ?thesis by (intro lit_head_None) simp_all
next
  case False
  with assms(3) have "isSpace (toLowerChar (hd s))" by simp
  with assms(2) have "toLowerChar (hd s) \<noteq> hd p" by (metis (full_types))
  with assms(1) show ?thesis by (intro lit_head_None) simp_all
qed

text \<open>The unit pattern consumes a spelled unit that is followed by white space or by
  nothing, and \<^verbatim>\<open>normalizeTimeUnit\<close> maps the spelling back to the unit.\<close>

lemma unit_spelling:
  assumes w: "w = unitName u \<or> w = unitName u @ ''s''" and r: "r = [] \<or> isSpace (hd r)"
  shows "unitWord (w @ r) = Some r" and "normalizeTimeUnit w = Inr u"
    and "w \<noteq> []" and "\<not> isSpace (hd w)" and "\<not> isDigit (hd w)"
proof -
  have s: "lit ''s'' r = None" using r by (intro lit_space_None) (simp_all add: string_eval)
  show "unitWord (w @ r) = Some r"
    using w s
    by (cases u; elim disjE; simp add: unitName_def unitWord_def lit_def opt_def string_eval)
  show "normalizeTimeUnit w = Inr u"
    using w
    by (cases u; elim disjE;
        simp add: unitName_def normalizeTimeUnit_def dropFinalS_def string_eval)
  show "w \<noteq> []" using w by (cases u; elim disjE; simp add: unitName_def)
  show "\<not> isSpace (hd w)" using w by (cases u; elim disjE; simp add: unitName_def string_eval)
  show "\<not> isDigit (hd w)" using w by (cases u; elim disjE; simp add: unitName_def string_eval)
qed

lemma past_phrase:
  assumes ds: "ds \<noteq> []" "\<forall>c \<in> set ds. isDigit c"
    and w: "w = unitName u \<or> w = unitName u @ ''s''"
  shows "pastPattern (ds @ '' '' @ w @ '' ago'') = Some (ds @ '' '' @ w @ '' ago'', ds, w)"
    and "futurePattern (ds @ '' '' @ w @ '' ago'') = None"
proof -
  note us = unit_spelling[OF w, of "'' ago''"]
  have 1: "digits1 (ds @ '' '' @ w @ '' ago'') = Some ('' '' @ w @ '' ago'')"
    using ds by (intro digits1_run) (simp_all add: string_eval)
  have 2: "spaces1 ('' '' @ w @ '' ago'') = Some (w @ '' ago'')"
    using us(3,4) by (simp add: spaces1_def string_eval dropWhile_id_hd)
  have 3: "unitWord (w @ '' ago'') = Some '' ago''"
    using us(1) by (simp add: string_eval)
  have 4: "seqs [spaces1, lit ''ago'', eos] '' ago'' = Some []"
    by (simp add: rx_defs string_eval)
  have i: "opt (seqs [lit ''in'', spaces1]) (ds @ '' '' @ w @ '' ago'') = Some (ds @ '' '' @ w @ '' ago'')"
    using lit_digit_None[of "''in''" "ds @ '' '' @ w @ '' ago''"] ds
    by (simp add: opt_def string_eval)
  have 5: "seqs [opt (seqs [spaces1,
                     alts [seqs [lit ''from'', spaces1, lit ''now''], lit ''ahead'']]),
                   eos] '' ago'' = None"
    by (simp add: rx_defs string_eval)
  have c: "consumed (ds @ '' '' @ w @ '' ago'') ('' '' @ w @ '' ago'') = ds"
    "consumed (w @ '' ago'') '' ago'' = w"
    using consumed_append[of ds "'' '' @ w @ '' ago''"] consumed_append[of w "'' ago''"]
    by simp_all
  show "pastPattern (ds @ '' '' @ w @ '' ago'') = Some (ds @ '' '' @ w @ '' ago'', ds, w)"
    unfolding pastPattern_def by (simp only: 1 2 3 4 c consumed_Nil bind.bind_lunit)
  show "futurePattern (ds @ '' '' @ w @ '' ago'') = None"
    unfolding futurePattern_def by (simp only: i 1 2 3 5 bind.bind_lunit bind.bind_lzero)
qed


lemma future_phrase:
  assumes ds: "ds \<noteq> []" "\<forall>c \<in> set ds. isDigit c"
    and w: "w = unitName u \<or> w = unitName u @ ''s''"
    and suffix: "suffix = [] \<or> suffix = '' from now'' \<or> suffix = '' ahead''"
  shows "futurePattern (''in '' @ ds @ '' '' @ w @ suffix)
           = Some (''in '' @ ds @ '' '' @ w @ suffix, ds, w)"
proof -
  have sp: "suffix = [] \<or> isSpace (hd suffix)"
    using suffix by (elim disjE; simp add: string_eval)
  note us = unit_spelling[OF w sp]
  have hd: "\<not> isSpace (hd ds)" using ds by (simp add: digit_not_space)
  have i: "opt (seqs [lit ''in'', spaces1]) (''in '' @ ds @ '' '' @ w @ suffix)
             = Some (ds @ '' '' @ w @ suffix)"
    using ds hd by (simp add: opt_def lit_def spaces1_def string_eval dropWhile_id_hd)
  have 1: "digits1 (ds @ '' '' @ w @ suffix) = Some ('' '' @ w @ suffix)"
    using ds by (intro digits1_run) (simp_all add: string_eval)
  have 2: "spaces1 ('' '' @ w @ suffix) = Some (w @ suffix)"
    using us(3,4) by (simp add: spaces1_def string_eval dropWhile_id_hd)
  have 3: "unitWord (w @ suffix) = Some suffix"
    using us(1) by simp
  have 4: "seqs [opt (seqs [spaces1,
                     alts [seqs [lit ''from'', spaces1, lit ''now''], lit ''ahead'']]),
                   eos] suffix = Some []"
    using suffix by (elim disjE; simp add: rx_defs string_eval)
  have c: "consumed (ds @ '' '' @ w @ suffix) ('' '' @ w @ suffix) = ds"
    "consumed (w @ suffix) suffix = w"
    using consumed_append[of ds "'' '' @ w @ suffix"] consumed_append[of w suffix]
    by simp_all
  show ?thesis
    unfolding futurePattern_def by (simp only: i 1 2 3 4 c consumed_Nil bind.bind_lunit)
qed

lemma keywords_skip_digits:
  assumes "s \<noteq> []" and "isDigit (hd s)"
  shows "parseRelativeKeywords h s d = Inr (noMatch s)"
proof -
  have "lit p s = None" if "p \<noteq> []" "\<not> isDigit (hd p)" for p
    using that assms by (intro lit_digit_None)
  then have "lit ''today'' s = None" "lit ''now'' s = None" "lit ''tomorrow'' s = None"
    "lit ''yesterday'' s = None"
    by (simp_all add: string_eval)
  then show ?thesis
    by (simp add: parseRelativeKeywords_def keywordPatterns_def match0_def)
qed

lemma keywords_skip_in:
  "parseRelativeKeywords h (''in '' @ x) d = Inr (noMatch (''in '' @ x))"
  by (simp add: parseRelativeKeywords_def keywordPatterns_def match0_def lit_def string_eval)

lemma tryParsers_second:
  assumes "parseRelativeKeywords h s d = Inr (noMatch s)"
    and "parseRelativeTime h s d = Inr r" and "date r \<noteq> None"
  shows "tryParsers (parsers h) s d = Inr (Some r)"
  using assms by (simp add: parsers_def)


section \<open>Strict mode\<close>

lemma tryParsers_none:
  assumes "\<forall>p \<in> set ps. \<forall>d. \<exists>r. p s d = Inr r \<and> date r = None"
  shows "tryParsers ps s d = Inr None"
  using assms
proof (induction ps)
  case Nil
  then show ?case by simp
next
  case (Cons p ps)
  then obtain r where "p s d = Inr r" "date r = None" by fastforce
  with Cons show ?case by simp
qed

lemma literal_2025_no_recognizer:
  "normalizeInput ''2025-12-25'' = ''2025-12-25''"
  "parseRelativeKeywords h ''2025-12-25'' d = Inr (noMatch ''2025-12-25'')"
  "parseRelativeTime h ''2025-12-25'' d = Inr (noMatch ''2025-12-25'')"
  "parseWeekdays h ''2025-12-25'' d = Inr (noMatch ''2025-12-25'')"
  "parseMonthReferences h ''2025-12-25'' d = Inr (noMatch ''2025-12-25'')"
  "parseTimeExpressions h ''2025-12-25'' d = Inr (noMatch ''2025-12-25'')"
  by (simp_all add: normalizeInput_def parseRelativeKeywords_def parseRelativeTime_def
      parseWeekdays_def parseMonthReferences_def parseTimeExpressions_def
      pattern_defs rx_defs string_defs)

text \<open>
  C6. When none of the five recognizers matches the normalized input and the option
  \<^verbatim>\<open>strict\<close> is set, \<^verbatim>\<open>parseNatural\<close> does not consult the host's date parser: it
  returns no date, confidence 0, an empty \<open>matched\<close> and the normalized input as
  \<open>remaining\<close>, whatever \<^verbatim>\<open>Date.parse\<close> would have made of the input.
\<close>

theorem strict_skips_fallback:
  assumes "\<forall>p \<in> set (parsers h). \<forall>d. \<exists>r. p (normalizeInput input) d = Inr r \<and> date r = None"
    and "strict options = Some True"
  shows "parseNatural h input options =
           Inr \<lparr>date = None, confidence = 0, matched = [], remaining = normalizeInput input\<rparr>"
  using assms tryParsers_none[of "parsers h" "normalizeInput input"]
  by (simp add: parseNatural_def noMatch_def)

text \<open>The literal \<^verbatim>\<open>2025-12-25\<close>, which the example host's \<^verbatim>\<open>Date.parse\<close> accepts.\<close>

theorem strict_skips_fallback_witness:
  "parseNatural exampleHost ''2025-12-25'' \<lparr>defaultDate = None, strict = Some True\<rparr> =
     Inr \<lparr>date = None, confidence = 0, matched = [], remaining = ''2025-12-25''\<rparr>
   \<and> DateParse exampleHost ''2025-12-25'' = Some 1766620800000"
  using strict_skips_fallback[of exampleHost "''2025-12-25''"
      "\<lparr>defaultDate = None, strict = Some True\<rparr>"]
  by (simp add: parsers_def literal_2025_no_recognizer noMatch_def exampleHost_def)

section \<open>Relative keywords\<close>

lemma keyword_eval:
  "parseRelativeKeywords h ''today'' d =
     Inr \<lparr>date = Some (today h), confidence = 0.95, matched = ''today'', remaining = []\<rparr>"
  "parseRelativeKeywords h ''now'' d =
     Inr \<lparr>date = Some (today h), confidence = 0.95, matched = ''now'', remaining = []\<rparr>"
  "parseRelativeKeywords h ''tomorrow'' d =
     Inr \<lparr>date = Some (tomorrow h), confidence = 0.95, matched = ''tomorrow'', remaining = []\<rparr>"
  "parseRelativeKeywords h ''yesterday'' d =
     Inr \<lparr>date = Some (yesterday h), confidence = 0.95, matched = ''yesterday'',
          remaining = []\<rparr>"
  by (simp_all add: parseRelativeKeywords_def pattern_defs rx_defs string_defs)

lemma today_value:
  assumes "inTimeRange (currentTime h)"
  shows "today h = Date (TimeClip (UTC h (Day (LocalTime h (currentTime h)) * msPerDay)))"
  using assms
  by (simp add: today_def NewDate_def TimeClip_Some setHours4_day MakeTime_def)

lemma today_exampleHost: "today exampleHost = Date (Some 1752019200000)"
proof -
  have c: "currentTime exampleHost = 1752073200000" by (simp add: exampleHost_def)
  have "inTimeRange (currentTime exampleHost)" by (simp add: c inTimeRange_def)
  from today_value[OF this] show ?thesis
    by (simp add: c Day_def msPerDay_def TimeClip_def)
qed

lemma tomorrow_exampleHost: "tomorrow exampleHost = Date (Some 1752105600000)"
  by (simp add: tomorrow_def today_exampleHost Let_def setDate_shift msPerDay_def TimeClip_def)

lemma yesterday_exampleHost: "yesterday exampleHost = Date (Some 1751932800000)"
  using setDate_shift_minus[of exampleHost 1752019200000 1]
  by (simp add: yesterday_def today_exampleHost Let_def msPerDay_def TimeClip_def)

text \<open>
  C1 (what the program does). On an input whose normal form is one of the keywords
  \<^verbatim>\<open>today\<close>, \<^verbatim>\<open>now\<close>, \<^verbatim>\<open>tomorrow\<close>, \<^verbatim>\<open>yesterday\<close>, \<^verbatim>\<open>parseNatural\<close> returns
  \<^verbatim>\<open>today()\<close>, \<^verbatim>\<open>tomorrow()\<close> or \<^verbatim>\<open>yesterday()\<close> with confidence 0.95, whatever
  reference instant \<open>T\<close> the options give: these three read the system clock, and the
  keyword recognizer never looks at \<open>T\<close>. With the clock at 2025-07-09T15:00:00Z and
  \<open>T\<close> = 2025-01-01T12:00:00Z, \<^verbatim>\<open>tomorrow\<close> is 2025-07-10T00:00:00Z, not the start of
  the day after \<open>T\<close>, 2025-01-02T00:00:00Z.
\<close>

theorem keywords_resolve_against_clock:
  assumes "normalizeInput input = kw"
    and "kw = ''today'' \<or> kw = ''now'' \<or> kw = ''tomorrow'' \<or> kw = ''yesterday''"
  shows "parseNatural h input \<lparr>defaultDate = Some T, strict = st\<rparr> =
           Inr \<lparr>date = Some (if kw = ''tomorrow'' then tomorrow h
                            else if kw = ''yesterday'' then yesterday h else today h),
                confidence = 0.95, matched = kw, remaining = []\<rparr>"
  using assms(2) unfolding parseNatural_def assms(1) Let_def
  by (elim disjE; simp add: parsers_def keyword_eval)

lemma reference_day_after:
  "add exampleHost (OfDate (Date (Some 1735732800000))) (Some 1) UDay
     = Inr (Date (Some 1735819200000))"
  "startOfDay exampleHost (OfDate (Date (Some 1735819200000)))
     = Inr (Date (Some 1735776000000))"
proof -
  have r: "inTimeRange 1735732800000" by (simp add: inTimeRange_def)
  show "add exampleHost (OfDate (Date (Some 1735732800000))) (Some 1) UDay
     = Inr (Date (Some 1735819200000))"
    using add_fixed[OF r, where unit = UDay and h = exampleHost and k = 1]
    by (simp add: unitMs_def TimeClip_def)
  have r2: "inTimeRange 1735819200000" by (simp add: inTimeRange_def)
  show "startOfDay exampleHost (OfDate (Date (Some 1735819200000)))
     = Inr (Date (Some 1735776000000))"
    using startOfDay_OfDate[of exampleHost "Date (Some 1735819200000)"] r2
    by (simp add: NewDateOfDate_def TimeClip_def setHours4_day MakeTime_def Day_def msPerDay_def
        inTimeRange_def)
qed

theorem keywords_resolve_against_clock_witness:
  "parseNatural exampleHost ''tomorrow''
      \<lparr>defaultDate = Some (Date (Some 1735732800000)), strict = None\<rparr>
     = Inr \<lparr>date = Some (Date (Some 1752105600000)), confidence = 0.95,
            matched = ''tomorrow'', remaining = []\<rparr>
   \<and> add exampleHost (OfDate (Date (Some 1735732800000))) (Some 1) UDay
     = Inr (Date (Some 1735819200000))
   \<and> startOfDay exampleHost (OfDate (Date (Some 1735819200000)))
     = Inr (Date (Some 1735776000000))"
  using keywords_resolve_against_clock[where input = "''tomorrow''" and kw = "''tomorrow''"
      and h = exampleHost and T = "Date (Some 1735732800000)" and st = None]
    reference_day_after
  by (simp add: normalizeInput_def string_defs tomorrow_exampleHost)


section \<open>One month on\<close>

lemma add_month:
  assumes "inTimeRange tv"
  shows "add h (OfDate (Date (Some tv))) (Some 1) UMonth
           = Inr (Date (TimeClip (UTC h (monthAfter (LocalTime h tv)))))"
  using assms
  by (simp add: add_def setMonth_def getMonth_def nplus_def Let_def monthAfter_def)

lemma DaysInMonth_range: "28 \<le> DaysInMonth y mn" "DaysInMonth y mn \<le> 31"
  by (simp_all add: DaysInMonth_def)

lemma monthAfter_fields:
  fixes t :: int
  defines "y' \<equiv> YearFromTime t + (MonthFromTime t + 1) div 12"
    and "m' \<equiv> (MonthFromTime t + 1) mod 12"
  shows "YearFromTime (monthAfter t) = y'"
    and "MonthFromTime (monthAfter t)
           = (if DateFromTime t \<le> DaysInMonth y' m' then m' else m' + 1)"
proof -
  define dt where "dt = DateFromTime t"
  define l' :: int where "l' = (if DaysInYear y' = 366 then 1 else 0)"
  have m': "0 \<le> m'" "m' \<le> 11" unfolding m'_def by simp_all
  have dt: "1 \<le> dt" "dt \<le> 31"
    using DateFromTime_range[of t] DaysInMonth_range(2)[of "YearFromTime t" "MonthFromTime t"]
    unfolding dt_def by simp_all
  have "Day (monthAfter t) = MakeDay (YearFromTime t) (MonthFromTime t + 1) (DateFromTime t)"
    unfolding monthAfter_def using TimeWithinDay_range[of t] by (intro Day_MakeDate(1))
  then have day: "Day (monthAfter t) = DayFromYear y' + FirstDayOfMonth l' m' + dt - 1"
    by (simp add: MakeDay_def Let_def y'_def m'_def l'_def dt_def)
  have "YearFromTime (monthAfter t) = y'
      \<and> MonthFromTime (monthAfter t) = (if dt \<le> DaysInMonth y' m' then m' else m' + 1)"
  proof (cases "dt \<le> DaysInMonth y' m'")
    case True
    from fields_of_day(1,2)[OF m' dt(1) True day[unfolded l'_def]] True
    show ?thesis by simp
  next
    case False
    have "m' \<noteq> 11" using False dt(2) by (auto simp: DaysInMonth_def)
    with m' have m10: "m' \<le> 10" by simp
    define e where "e = dt - DaysInMonth y' m'"
    have e: "1 \<le> e" "e \<le> DaysInMonth y' (m' + 1)"
      using False dt(2) DaysInMonth_range[of y' m'] DaysInMonth_range(1)[of y' "m' + 1"]
      unfolding e_def by simp_all
    have n: "0 \<le> m' + 1" "m' + 1 \<le> 11" using m'(1) m10 by simp_all
    have "Day (monthAfter t) = DayFromYear y' + FirstDayOfMonth l' (m' + 1) + e - 1"
      using day FirstDayOfMonth_next[OF m'(1) m10, of y'] unfolding e_def l'_def by simp
    from fields_of_day(1,2)[OF n e this[unfolded l'_def]] False
    show ?thesis by simp
  qed
  then show "YearFromTime (monthAfter t) = y'"
    and "MonthFromTime (monthAfter t)
           = (if DateFromTime t \<le> DaysInMonth y' m' then m' else m' + 1)"
    unfolding dt_def by simp_all
qed

lemma month_difference_local:
  "(YearFromTime (monthAfter t) - YearFromTime t) * 12
      + (MonthFromTime (monthAfter t) - MonthFromTime t)
   = (if DateFromTime t
         \<le> DaysInMonth (YearFromTime t + (MonthFromTime t + 1) div 12)
              ((MonthFromTime t + 1) mod 12)
      then 1 else 2)"
proof -
  have r: "0 \<le> MonthFromTime t" "MonthFromTime t \<le> 11" by (rule MonthFromTime_range)+
  show ?thesis
  proof (cases "MonthFromTime t = 11")
    case True
    have "DateFromTime t \<le> 31"
      using DateFromTime_range(2)[of t] DaysInMonth_range(2)[of "YearFromTime t" "MonthFromTime t"]
      by simp
    then show ?thesis
      unfolding monthAfter_fields True by (simp add: DaysInMonth_def)
  next
    case False
    with r have "MonthFromTime t + 1 < 12" "0 \<le> MonthFromTime t + 1" by simp_all
    then have "(MonthFromTime t + 1) div 12 = 0" "(MonthFromTime t + 1) mod 12 = MonthFromTime t + 1"
      by simp_all
    then show ?thesis unfolding monthAfter_fields by simp
  qed
qed

text \<open>
  C2 (as amended). For every time value \<open>T\<close> of a \<^verbatim>\<open>Date\<close> object such that the local
  time one month on exists on the host and its instant is again in the range of
  \<^verbatim>\<open>Date\<close>: the month difference between \<^verbatim>\<open>add(T, 1, month)\<close> and \<open>T\<close> is 1 when
  the day of the month of \<open>T\<close> exists in the following month, and 2 when it does not
  (the 29th to 31st before a shorter month), because the day number then runs over into
  the month after.
\<close>

theorem month_difference_after_add:
  assumes "inTimeRange tv" and "inTimeRange (UTC h (monthAfter (LocalTime h tv)))"
    and "LocalTime h (UTC h (monthAfter (LocalTime h tv))) = monthAfter (LocalTime h tv)"
  shows "\<exists>d. add h (OfDate (Date (Some tv))) (Some 1) UMonth = Inr d
           \<and> differenceIn h (OfDate d) (OfDate (Date (Some tv))) UMonth
               = Inr (Some (if DateFromTime (LocalTime h tv)
                               \<le> DaysInMonth
                                    (YearFromTime (LocalTime h tv)
                                       + (MonthFromTime (LocalTime h tv) + 1) div 12)
                                    ((MonthFromTime (LocalTime h tv) + 1) mod 12)
                            then 1 else 2))"
proof -
  define rv where "rv = UTC h (monthAfter (LocalTime h tv))"
  have a: "add h (OfDate (Date (Some tv))) (Some 1) UMonth = Inr (Date (Some rv))"
    using add_month[OF assms(1), of h] assms(2) by (simp add: rv_def TimeClip_Some)
  have "differenceIn h (OfDate (Date (Some rv))) (OfDate (Date (Some tv))) UMonth
      = Inr (Some ((YearFromTime (LocalTime h rv) - YearFromTime (LocalTime h tv)) * 12
                  + (MonthFromTime (LocalTime h rv) - MonthFromTime (LocalTime h tv))))"
    using assms(1,2)
    by (simp add: differenceIn_def rv_def[symmetric] nminus_def nplus_def ntimes_def
        getFullYear_def getMonth_def)
  also have "LocalTime h rv = monthAfter (LocalTime h tv)" using assms(3) by (simp add: rv_def)
  finally show ?thesis using a month_difference_local[of "LocalTime h tv"] by simp
qed


lemma fields_20250709:
  "YearFromTime 1752073200000 = 2025" "MonthFromTime 1752073200000 = 6"
  "DateFromTime 1752073200000 = 9"
proof -
  have d: "Day 1752073200000
      = DayFromYear 2025 + FirstDayOfMonth (if DaysInYear 2025 = 366 then 1 else 0) 6 + 9 - 1"
    by (simp add: Day_def msPerDay_def DayFromYear_def FirstDayOfMonth_def DaysInYear_def)
  have m: "(9::int) \<le> DaysInMonth 2025 6" by (simp add: DaysInMonth_def)
  show "YearFromTime 1752073200000 = 2025" "MonthFromTime 1752073200000 = 6"
    "DateFromTime 1752073200000 = 9"
    using fields_of_day[OF _ _ _ m d] by simp_all
qed

lemma fields_20250131:
  "YearFromTime 1738281600000 = 2025" "MonthFromTime 1738281600000 = 0"
  "DateFromTime 1738281600000 = 31"
proof -
  have d: "Day 1738281600000
      = DayFromYear 2025 + FirstDayOfMonth (if DaysInYear 2025 = 366 then 1 else 0) 0 + 31 - 1"
    by (simp add: Day_def msPerDay_def DayFromYear_def FirstDayOfMonth_def DaysInYear_def)
  have m: "(31::int) \<le> DaysInMonth 2025 0" by (simp add: DaysInMonth_def)
  show "YearFromTime 1738281600000 = 2025" "MonthFromTime 1738281600000 = 0"
    "DateFromTime 1738281600000 = 31"
    using fields_of_day[OF _ _ _ m d] by simp_all
qed

lemma monthAfter_20250709: "monthAfter 1752073200000 = 1754751600000"
  by (simp add: monthAfter_def fields_20250709 MakeDay_def MakeDate_def DayFromYear_def
      FirstDayOfMonth_def DaysInYear_def TimeWithinDay_def msPerDay_def)

lemma monthAfter_20250131: "monthAfter 1738281600000 = 1740960000000"
  by (simp add: monthAfter_def fields_20250131 MakeDay_def MakeDate_def DayFromYear_def
      FirstDayOfMonth_def DaysInYear_def TimeWithinDay_def msPerDay_def)

theorem month_difference_after_add_witness:
  "add exampleHost (OfDate (Date (Some 1752073200000))) (Some 1) UMonth
     = Inr (Date (Some 1754751600000))
   \<and> differenceIn exampleHost (OfDate (Date (Some 1754751600000)))
        (OfDate (Date (Some 1752073200000))) UMonth = Inr (Some 1)"
proof -
  have r: "inTimeRange 1752073200000" by (simp add: inTimeRange_def)
  have a: "add exampleHost (OfDate (Date (Some 1752073200000))) (Some 1) UMonth
     = Inr (Date (Some 1754751600000))"
    using add_month[OF r, of exampleHost] by (simp add: monthAfter_20250709 TimeClip_def)
  show ?thesis
    using month_difference_after_add[where h = exampleHost and tv = 1752073200000] a
    by (simp add: monthAfter_20250709 fields_20250709 inTimeRange_def DaysInMonth_def)
qed

text \<open>
  C2 as stated fails: one month after 31 January 2025 is 3 March 2025, two months on by
  the calendar fields.
\<close>

theorem month_difference_counterexample:
  "add exampleHost (OfDate (Date (Some 1738281600000))) (Some 1) UMonth
     = Inr (Date (Some 1740960000000))
   \<and> differenceIn exampleHost (OfDate (Date (Some 1740960000000)))
        (OfDate (Date (Some 1738281600000))) UMonth = Inr (Some 2)"
proof -
  have r: "inTimeRange 1738281600000" by (simp add: inTimeRange_def)
  have a: "add exampleHost (OfDate (Date (Some 1738281600000))) (Some 1) UMonth
     = Inr (Date (Some 1740960000000))"
    using add_month[OF r, of exampleHost] by (simp add: monthAfter_20250131 TimeClip_def)
  have "differenceIn exampleHost (OfDate (Date (Some 1740960000000)))
        (OfDate (Date (Some 1738281600000))) UMonth
      = Inr (Some ((YearFromTime (monthAfter 1738281600000) - YearFromTime 1738281600000) * 12
                  + (MonthFromTime (monthAfter 1738281600000) - MonthFromTime 1738281600000)))"
    by (simp add: differenceIn_def nminus_def nplus_def ntimes_def getFullYear_def getMonth_def
        monthAfter_20250131 inTimeRange_def)
  then have "differenceIn exampleHost (OfDate (Date (Some 1740960000000)))
        (OfDate (Date (Some 1738281600000))) UMonth = Inr (Some 2)"
    unfolding month_difference_local by (simp add: fields_20250131 DaysInMonth_def DaysInYear_def)
  with a show ?thesis by simp
qed


section \<open>Differences\<close>

lemma floor_eq_trunc_iff:
  fixes x k :: int
  assumes "0 < k"
  shows "(x div k = truncDiv x k) = (0 \<le> x \<or> k dvd x)"
proof (cases "0 \<le> x")
  case True
  then show ?thesis by (cases "x = 0") (simp_all add: truncDiv_def)
next
  case False
  then have neg: "x < 0" by simp
  have t: "truncDiv x k = - ((- x) div k)"
    using neg by (simp add: truncDiv_def)
  have "x div k = (if (- x) mod k = 0 then - ((- x) div k) else - ((- x) div k) - 1)"
    using zdiv_zminus1_eq_if[of k "- x"] assms by simp
  moreover have "((- x) mod k = 0) = (k dvd x)"
    by (simp add: mod_eq_0_iff_dvd)
  ultimately show ?thesis using neg t by auto
qed

text \<open>
  C3 (as amended). For time values \<open>ta\<close>, \<open>tb\<close> of \<^verbatim>\<open>Date\<close> objects whose
  difference is a safe integer (at most \<open>2^53 - 1\<close> in magnitude, about 285 000 years,
  up to which the subtraction and the division of the program are exact enough for
  \<^verbatim>\<open>Math.floor\<close>), \<^verbatim>\<open>differenceIn\<close> on a unit of fixed length is the millisecond
  difference divided by the length of the unit and rounded down (toward minus infinity):
  the quotient \<open>q\<close> with \<open>k * q \<le> ta - tb < k * q + k\<close>. It is the truncation toward
  zero exactly when \<open>tb \<le> ta\<close> or the difference is a whole number of units. For months
  it is \<open>(yearA - yearB) * 12 + (monthA - monthB)\<close> and for years \<open>yearA - yearB\<close>, on
  the local calendar fields, for all time values of \<^verbatim>\<open>Date\<close> objects.
\<close>

theorem differenceIn_floor:
  assumes "inTimeRange ta" and "inTimeRange tb"
    and "unit = UMonth \<or> unit = UYear \<or> safeInteger (ta - tb)"
  shows "differenceIn h (OfDate (Date (Some ta))) (OfDate (Date (Some tb))) unit =
           Inr (Some (case unit of
              UMonth \<Rightarrow> (YearFromTime (LocalTime h ta) - YearFromTime (LocalTime h tb)) * 12
                         + (MonthFromTime (LocalTime h ta) - MonthFromTime (LocalTime h tb))
            | UYear \<Rightarrow> YearFromTime (LocalTime h ta) - YearFromTime (LocalTime h tb)
            | _ \<Rightarrow> (ta - tb) div unitMs unit))
         \<and> (unit \<noteq> UMonth \<and> unit \<noteq> UYear \<longrightarrow>
              unitMs unit * ((ta - tb) div unitMs unit) \<le> ta - tb
              \<and> ta - tb < unitMs unit * ((ta - tb) div unitMs unit) + unitMs unit
              \<and> (((ta - tb) div unitMs unit = truncDiv (ta - tb) (unitMs unit))
                   = (tb \<le> ta \<or> unitMs unit dvd (ta - tb))))"
proof -
  have pos: "unit \<noteq> UMonth \<Longrightarrow> unit \<noteq> UYear \<Longrightarrow> 0 < unitMs unit"
    by (cases unit) (simp_all add: unitMs_def)
  have 1: "differenceIn h (OfDate (Date (Some ta))) (OfDate (Date (Some tb))) unit =
           Inr (Some (case unit of
              UMonth \<Rightarrow> (YearFromTime (LocalTime h ta) - YearFromTime (LocalTime h tb)) * 12
                         + (MonthFromTime (LocalTime h ta) - MonthFromTime (LocalTime h tb))
            | UYear \<Rightarrow> YearFromTime (LocalTime h ta) - YearFromTime (LocalTime h tb)
            | _ \<Rightarrow> (ta - tb) div unitMs unit))"
    using assms
    by (cases unit)
      (simp_all add: differenceIn_def nminus_def nplus_def ntimes_def floorDiv_def
        getFullYear_def getMonth_def unitMs_def)
  have 2: "unitMs unit * ((ta - tb) div unitMs unit) \<le> ta - tb
              \<and> ta - tb < unitMs unit * ((ta - tb) div unitMs unit) + unitMs unit
              \<and> (((ta - tb) div unitMs unit = truncDiv (ta - tb) (unitMs unit))
                   = (tb \<le> ta \<or> unitMs unit dvd (ta - tb)))"
    if "unit \<noteq> UMonth" "unit \<noteq> UYear"
    using floor_eq_trunc_iff[OF pos[OF that], of "ta - tb"] div_bounds[OF pos[OF that], of "ta - tb"]
    by simp
  show ?thesis using 1 2 by blast
qed

theorem differenceIn_floor_witness:
  "differenceIn exampleHost (OfDate (Date (Some 0))) (OfDate (Date (Some 2500))) USecond
     = Inr (Some (- 3))
   \<and> (1000::int) * (- 3) \<le> 0 - 2500 \<and> (0::int) - 2500 < 1000 * (- 3) + 1000
   \<and> truncDiv (0 - 2500) 1000 = - 2"
  using differenceIn_floor[where ta = 0 and tb = 2500 and h = exampleHost and unit = USecond]
  by (simp add: inTimeRange_def safeInteger_def unitMs_def truncDiv_def)

text \<open>
  C3 as stated fails: 0 ms against 1500 ms is \<open>-2\<close> seconds, and the truncation of
  \<open>-1.5\<close> toward zero is \<open>-1\<close>.
\<close>

theorem differenceIn_truncation_counterexample:
  "differenceIn exampleHost (OfDate (Date (Some 0))) (OfDate (Date (Some 1500))) USecond
     = Inr (Some (- 2))
   \<and> truncDiv (0 - 1500) 1000 = - 1"
  by (simp add: differenceIn_def nminus_def floorDiv_def truncDiv_def inTimeRange_def)

section \<open>Weekday references\<close>

lemma weekday_phrase:
  assumes m: "modifier = ''next'' \<or> modifier = ''last'' \<or> modifier = ''this''" and i: "i < 7"
  shows "weekdayPattern (modifier @ '' '' @ weekdays ! i)
           = Some (modifier @ '' '' @ weekdays ! i, modifier, weekdays ! i)"
    and "toLowerCase modifier = modifier"
    and "indexOf weekdays (toLowerCase (weekdays ! i)) = int i"
    and "parseRelativeKeywords h (modifier @ '' '' @ weekdays ! i) d
           = Inr (noMatch (modifier @ '' '' @ weekdays ! i))"
    and "parseRelativeTime h (modifier @ '' '' @ weekdays ! i) d
           = Inr (noMatch (modifier @ '' '' @ weekdays ! i))"
proof -
  from i consider "i = 0" | "i = 1" | "i = 2" | "i = 3" | "i = 4" | "i = 5" | "i = 6"
    by atomize_elim arith
  note ci = this
  show "weekdayPattern (modifier @ '' '' @ weekdays ! i)
           = Some (modifier @ '' '' @ weekdays ! i, modifier, weekdays ! i)"
    using m by (elim disjE; use ci in cases;
        simp add: weekdayPattern_def weekdays_def rx_defs string_eval)
  show "toLowerCase modifier = modifier"
    using m by (elim disjE; simp add: string_eval)
  show "indexOf weekdays (toLowerCase (weekdays ! i)) = int i"
    using ci by (cases; simp add: weekdays_def string_eval)
  show "parseRelativeKeywords h (modifier @ '' '' @ weekdays ! i) d
           = Inr (noMatch (modifier @ '' '' @ weekdays ! i))"
    using m by (elim disjE; use ci in cases;
        simp add: parseRelativeKeywords_def keywordPatterns_def weekdays_def rx_defs string_eval)
  show "parseRelativeTime h (modifier @ '' '' @ weekdays ! i) d
           = Inr (noMatch (modifier @ '' '' @ weekdays ! i))"
    using m by (elim disjE; use ci in cases;
        simp add: parseRelativeTime_def futurePattern_def pastPattern_def weekdays_def
          rx_defs string_eval)
qed

lemma WeekDay_range: "0 \<le> WeekDay t" "WeekDay t \<le> 6"
  by (simp_all add: WeekDay_def)

lemma WeekDay_target:
  assumes "0 \<le> i" and "i \<le> 6" and "k = i - WeekDay t + 7 * j"
  shows "WeekDay (MakeDate (Day t + k) 0) = i"
proof -
  define a where "a = Day t + 4"
  have d: "Day (MakeDate (Day t + k) 0) = Day t + k"
    using Day_MakeDate(1)[of 0 "Day t + k"] msPerDay_pos by simp
  define q where "q = a div 7"
  define r where "r = a mod 7"
  have k: "k = i - r + 7 * j" using assms(3) by (simp add: WeekDay_def a_def r_def)
  have "a = 7 * q + r" by (simp add: q_def r_def)
  then have "Day t + k + 4 = 7 * q + 7 * j + i"
    using k unfolding a_def by linarith
  then have "Day t + k + 4 = 7 * (q + j) + i"
    by (simp add: algebra_simps)
  then have "(Day t + k + 4) mod 7 = i"
    using assms(1,2) by (intro int_mod_pos_eq[where q = "q + j"]) simp_all
  then show ?thesis by (simp add: WeekDay_def d)
qed

lemma tryParsers_third:
  assumes "parseRelativeKeywords h s d = Inr (noMatch s)"
    and "parseRelativeTime h s d = Inr (noMatch s)"
    and "parseWeekdays h s d = Inr r" and "date r \<noteq> None"
  shows "tryParsers (parsers h) s d = Inr (Some r)"
  using assms by (simp add: parsers_def noMatch_def)

lemma parseWeekdays_resolution:
  assumes m: "modifier = ''next'' \<or> modifier = ''last'' \<or> modifier = ''this''" and i: "i < 7"
    and r: "inTimeRange tv"
  shows "parseWeekdays h (modifier @ '' '' @ weekdays ! i) (Date (Some tv)) =
     (let delta = int i - WeekDay (LocalTime h tv);
          k = (if modifier = ''next'' then (if delta \<le> 0 then delta + 7 else delta)
               else if modifier = ''last'' then (if 0 \<le> delta then delta - 7 else delta)
               else (if delta < 0 then delta + 7 else delta))
      in Inr \<lparr>date = Some (setHours4 h 0 0 0 0
                  (Date (TimeClip (UTC h (LocalTime h tv + k * msPerDay))))),
              confidence = 0.85, matched = modifier @ '' '' @ weekdays ! i, remaining = []\<rparr>)"
proof -
  note p = weekday_phrase[OF m i]
  have tl: "toLowerCase ''next'' = ''next''" "toLowerCase ''last'' = ''last''"
    "toLowerCase ''this'' = ''this''"
    by (simp_all add: string_eval)
  have s: "setDate h (Some (DateFromTime (LocalTime h tv) + k)) (Date (Some tv))
      = Date (TimeClip (UTC h (LocalTime h tv + k * msPerDay)))" for k
    using setDate_shift[of h tv k] by (simp add: getDate_def nplus_def)
  show ?thesis
    unfolding parseWeekdays_def p(1)
    using m r
    by (elim disjE;
        simp add: tl p(3) Let_def getDay_def getDate_def nminus_def nle_def nless_def nplus_def s
          replace_self trim_Nil del: One_nat_def)
qed


lemma NewDateOfDate_TimeClip [simp]: "NewDateOfDate (Date (TimeClip z)) = Date (TimeClip z)"
  by (simp add: NewDateOfDate_def TimeClip_def)


lemma weekday_example_fields:
  "WeekDay 1752073200000 = 3" "Day 1752073200000 = 20278"
  by (simp_all add: WeekDay_def Day_def msPerDay_def)



section \<open>Relative offsets\<close>

lemma parseRelativeTime_past:
  assumes "pastPattern s = Some (s, m1, m2)" and "futurePattern s = None"
    and "normalizeTimeUnit m2 = Inr u" and "subtract h (OfDate T) (parseInt m1) u = Inr d"
  shows "parseRelativeTime h s T =
           Inr \<lparr>date = Some d, confidence = 0.9, matched = s, remaining = []\<rparr>"
  using assms by (simp add: parseRelativeTime_def)

lemma parseRelativeTime_future:
  assumes "futurePattern s = Some (s, m1, m2)"
    and "normalizeTimeUnit m2 = Inr u" and "add h (OfDate T) (parseInt m1) u = Inr d"
  shows "parseRelativeTime h s T =
           Inr \<lparr>date = Some d, confidence = 0.9, matched = s, remaining = []\<rparr>"
  using assms by (simp add: parseRelativeTime_def)

lemma parseNatural_offset:
  assumes "defaultDate options = Some T"
    and "parseRelativeKeywords h (normalizeInput input) T = Inr (noMatch (normalizeInput input))"
    and "parseRelativeTime h (normalizeInput input) T = Inr r" and "date r \<noteq> None"
  shows "parseNatural h input options = Inr r"
  using tryParsers_second[OF assms(2,3,4)] assms(1) by (simp add: parseNatural_def)

lemma resolve_past:
  assumes w: "w = unitName u \<or> w = unitName u @ ''s''" and T: "defaultDate options = Some T"
    and s: "normalizeInput input = decimal N @ '' '' @ w @ '' ago''"
  shows "\<exists>d. subtract h (OfDate T) (Some (int N)) u = Inr d
           \<and> parseNatural h input options =
               Inr \<lparr>date = Some d, confidence = 0.9, matched = normalizeInput input,
                    remaining = []\<rparr>"
proof -
  obtain d where d: "subtract h (OfDate T) (Some (int N)) u = Inr d"
    using subtract_OfDate_total by blast
  note p = past_phrase[OF decimal_nonempty decimal_digits w, of N]
  have rt: "parseRelativeTime h (normalizeInput input) T =
      Inr \<lparr>date = Some d, confidence = 0.9, matched = normalizeInput input, remaining = []\<rparr>"
    unfolding s
    by (rule parseRelativeTime_past[OF p(1) p(2) unit_spelling(2)[OF w, of "[]"]])
      (simp_all add: d)
  have "normalizeInput input \<noteq> []" "isDigit (hd (normalizeInput input))"
    using decimal_nonempty[of N] decimal_digits[of N] unfolding s by simp_all
  then have kw: "parseRelativeKeywords h (normalizeInput input) T
      = Inr (noMatch (normalizeInput input))"
    by (rule keywords_skip_digits)
  have "parseNatural h input options =
      Inr \<lparr>date = Some d, confidence = 0.9, matched = normalizeInput input, remaining = []\<rparr>"
    by (rule parseNatural_offset[OF T kw rt]) simp
  with d show ?thesis by blast
qed

lemma resolve_future:
  assumes w: "w = unitName u \<or> w = unitName u @ ''s''" and T: "defaultDate options = Some T"
    and s: "normalizeInput input = ''in '' @ decimal N @ '' '' @ w @ suffix"
    and suffix: "suffix = [] \<or> suffix = '' from now'' \<or> suffix = '' ahead''"
  shows "\<exists>d. add h (OfDate T) (Some (int N)) u = Inr d
           \<and> parseNatural h input options =
               Inr \<lparr>date = Some d, confidence = 0.9, matched = normalizeInput input,
                    remaining = []\<rparr>"
proof -
  obtain d where d: "add h (OfDate T) (Some (int N)) u = Inr d"
    using add_OfDate_total by blast
  note p = future_phrase[OF decimal_nonempty decimal_digits w suffix, of N]
  have rt: "parseRelativeTime h (normalizeInput input) T =
      Inr \<lparr>date = Some d, confidence = 0.9, matched = normalizeInput input, remaining = []\<rparr>"
    unfolding s
    by (rule parseRelativeTime_future[OF p unit_spelling(2)[OF w, of "[]"]])
      (simp_all add: d)
  have kw: "parseRelativeKeywords h (normalizeInput input) T
      = Inr (noMatch (normalizeInput input))"
    unfolding s by (rule keywords_skip_in)
  have "parseNatural h input options =
      Inr \<lparr>date = Some d, confidence = 0.9, matched = normalizeInput input, remaining = []\<rparr>"
    by (rule parseNatural_offset[OF T kw rt]) simp
  with d show ?thesis by blast
qed


lemma zero_days_ago_phrase:
  "normalizeInput ''0 Days ago'' = decimal 0 @ '' '' @ ''days'' @ '' ago''"
  "normalizeInput ''in 2 hours'' = ''in '' @ decimal 2 @ '' '' @ ''hours''"
  by (simp_all add: normalizeInput_def string_defs decimal.simps digitChar_def)




section \<open>Totality and the result invariant\<close>

text \<open>
  C7. \<^verbatim>\<open>parseNatural\<close> never throws: for every host, input and options it returns a
  result, whose confidence lies between 0 and 1. The one \<^verbatim>\<open>throw\<close> on its paths, in
  \<^verbatim>\<open>normalizeTimeUnit\<close>, is never reached: whatever text the unit group of either
  offset pattern captures is one of the sixteen spellings \<^verbatim>\<open>normalizeTimeUnit\<close> knows.
  (All functions of the model are total, so the call also terminates.)
\<close>

theorem parseNatural_never_raises:
  "(\<exists>r. parseNatural h input options = Inr r \<and> 0 \<le> confidence r \<and> confidence r \<le> 1)
   \<and> (futurePattern s = Some (m0, m1, m2) \<or> pastPattern s = Some (m0, m1, m2)
        \<longrightarrow> (\<exists>u. normalizeTimeUnit m2 = Inr u))"
proof -
  obtain r where r: "parseNatural h input options = Inr r"
    "r = noMatch (normalizeInput input)
        \<or> date r \<noteq> None \<and> confidence r \<in> {0.95, 0.9, 0.85, 0.8, 0.75, 0.5}"
    using parseNatural_shape by blast
  then have "0 \<le> confidence r \<and> confidence r \<le> 1" by auto
  with r show ?thesis
    using futurePattern_unit pastPattern_unit by blast
qed

lemma three_days_ago_pattern:
  "futurePattern ''3 Days ago'' = None"
  "pastPattern ''3 Days ago'' = Some (''3 Days ago'', ''3'', ''Days'')"
  "normalizeTimeUnit ''Days'' = Inr UDay"
  by (simp_all add: pattern_defs rx_defs string_defs normalizeTimeUnit_def dropFinalS_def)

theorem parseNatural_never_raises_witness:
  "(\<exists>r. parseNatural exampleHost ''3 Days ago'' \<lparr>defaultDate = None, strict = None\<rparr> = Inr r
        \<and> 0 \<le> confidence r \<and> confidence r \<le> 1)
   \<and> pastPattern ''3 Days ago'' = Some (''3 Days ago'', ''3'', ''Days'')
   \<and> (\<exists>u. normalizeTimeUnit ''Days'' = Inr u)"
  using parseNatural_never_raises[of exampleHost "''3 Days ago''"
      "\<lparr>defaultDate = None, strict = None\<rparr>" "''3 Days ago''" "''3 Days ago''" "''3''" "''Days''"]
  by (simp add: three_days_ago_pattern)

text \<open>
  C8. In every result of \<^verbatim>\<open>parseNatural\<close> the date is absent exactly when the
  confidence is 0, and a result with a date carries one of the six positive tier
  confidences.
\<close>

theorem parse_result_invariant:
  assumes "parseNatural h input options = Inr r"
  shows "(date r = None) = (confidence r = 0)
       \<and> (date r \<noteq> None \<longrightarrow> confidence r \<in> {0.95, 0.9, 0.85, 0.8, 0.75, 0.5})"
proof -
  have "r = noMatch (normalizeInput input)
        \<or> date r \<noteq> None \<and> confidence r \<in> {0.95, 0.9, 0.85, 0.8, 0.75, 0.5}"
    using parseNatural_shape[of h input options] assms by auto
  then show ?thesis by auto
qed

lemma literal_2025_fallback:
  "parseNatural exampleHost ''2025-12-25'' \<lparr>defaultDate = None, strict = None\<rparr> =
     Inr \<lparr>date = Some (Date (Some 1766620800000)), confidence = 0.5,
          matched = ''2025-12-25'', remaining = []\<rparr>"
  by (simp add: parseNatural_def parsers_def literal_2025_no_recognizer noMatch_def
      exampleHost_def NewDateOfString_def TimeClip_def)

theorem parse_result_invariant_witness:
  "parseNatural exampleHost ''2025-12-25'' \<lparr>defaultDate = None, strict = None\<rparr> =
     Inr \<lparr>date = Some (Date (Some 1766620800000)), confidence = 0.5,
          matched = ''2025-12-25'', remaining = []\<rparr>
   \<and> (0.5::real) \<noteq> 0 \<and> (0.5::real) \<in> {0.95, 0.9, 0.85, 0.8, 0.75, 0.5}"
  using parse_result_invariant[OF literal_2025_fallback] literal_2025_fallback
  by simp


section \<open>Matched and remaining text\<close>

lemma tryParsers_Some:
  "tryParsers ps s d = Inr (Some r) \<Longrightarrow> \<exists>p \<in> set ps. p s d = Inr r \<and> date r \<noteq> None"
  by (induction ps) (auto split: sum.splits if_splits)

lemma normalizeInput_ends:
  "normalizeInput x = [] \<or> (\<not> isSpace (hd (normalizeInput x)) \<and> \<not> isSpace (last (normalizeInput x)))"
  unfolding normalizeInput_def by (rule trim_ends)

lemma recognizers_reconstruct:
  assumes "p \<in> set (parsers h)" and "p (normalizeInput x) d = Inr r" and "date r \<noteq> None"
  shows "confidence r \<noteq> 0.5
     \<and> (\<exists>ws. (\<forall>c \<in> set ws. isSpace c) \<and> (ws = []) = (remaining r = [])
            \<and> matched r @ ws @ remaining r = normalizeInput x)"
proof -
  from assms(1) consider "p = parseRelativeKeywords h" | "p = parseRelativeTime h"
    | "p = parseWeekdays h" | "p = parseMonthReferences h" | "p = parseTimeExpressions h"
    by (auto simp: parsers_def)
  then show ?thesis
  proof cases
    case 1
    from parseRelativeKeywords_split[OF assms(2)[unfolded 1] assms(3) normalizeInput_ends]
    obtain ws where "normalizeInput x = matched r @ ws @ remaining r" "\<forall>c \<in> set ws. isSpace c"
      "(ws = []) = (remaining r = [])" "confidence r = 0.95" by blast
    then show ?thesis by auto
  next
    case 2
    from parseRelativeTime_whole[OF assms(2)[unfolded 2] assms(3)]
    have "confidence r \<noteq> 0.5 \<and> (\<forall>c \<in> set []. isSpace c) \<and> ([] = []) = (remaining r = [])
            \<and> matched r @ [] @ remaining r = normalizeInput x" by simp
    then show ?thesis by blast
  next
    case 3
    from parseWeekdays_whole[OF assms(2)[unfolded 3] assms(3)]
    have "confidence r \<noteq> 0.5 \<and> (\<forall>c \<in> set []. isSpace c) \<and> ([] = []) = (remaining r = [])
            \<and> matched r @ [] @ remaining r = normalizeInput x" by simp
    then show ?thesis by blast
  next
    case 4
    from parseMonthReferences_whole[OF assms(2)[unfolded 4] assms(3)]
    have "confidence r \<noteq> 0.5 \<and> (\<forall>c \<in> set []. isSpace c) \<and> ([] = []) = (remaining r = [])
            \<and> matched r @ [] @ remaining r = normalizeInput x" by simp
    then show ?thesis by blast
  next
    case 5
    from parseTimeExpressions_whole[OF assms(2)[unfolded 5] assms(3)]
    have "confidence r \<noteq> 0.5 \<and> (\<forall>c \<in> set []. isSpace c) \<and> ([] = []) = (remaining r = [])
            \<and> matched r @ [] @ remaining r = normalizeInput x" by simp
    then show ?thesis by blast
  qed
qed

text \<open>
  C9 (as amended). For every successful parse (confidence above 0): when one of the five
  recognizers matched, the normalized input is \<open>matched\<close>, then the white space the
  pattern consumed after it (any number of white-space characters; none exactly when
  \<open>remaining\<close> is empty), then \<open>remaining\<close>; in the fallback tier (confidence 0.5)
  \<open>matched\<close> is the input as given, not normalized, and \<open>remaining\<close> is empty.
\<close>

theorem matched_remaining_reconstruct:
  assumes "parseNatural h input options = Inr r" and "0 < confidence r"
  shows "(confidence r = 0.5 \<and> matched r = input \<and> remaining r = [])
       \<or> (confidence r \<noteq> 0.5
          \<and> (\<exists>ws. (\<forall>c \<in> set ws. isSpace c) \<and> (ws = []) = (remaining r = [])
                 \<and> matched r @ ws @ remaining r = normalizeInput input))"
proof -
  define d where "d = (case defaultDate options of None \<Rightarrow> now h | Some d \<Rightarrow> d)"
  show ?thesis
  proof (cases "tryParsers (parsers h) (normalizeInput input) d")
    case (Inl e)
    with assms(1) show ?thesis by (simp add: parseNatural_def d_def)
  next
    case (Inr res)
    show ?thesis
    proof (cases res)
      case None
      with Inr assms show ?thesis
        by (auto simp: parseNatural_def d_def Let_def split: if_splits)
    next
      case (Some r')
      with Inr assms(1) have "r' = r" by (simp add: parseNatural_def d_def)
      with Inr Some obtain p where "p \<in> set (parsers h)" "p (normalizeInput input) d = Inr r"
        "date r \<noteq> None"
        using tryParsers_Some by blast
      from recognizers_reconstruct[OF this] show ?thesis by blast
    qed
  qed
qed

lemma tomorrow_extra_eval:
  "parseNatural exampleHost ''tomorrow  extra'' \<lparr>defaultDate = None, strict = None\<rparr> =
     Inr \<lparr>date = Some (tomorrow exampleHost), confidence = 0.95, matched = ''tomorrow'',
          remaining = ''extra''\<rparr>"
  by (simp add: parseNatural_def parsers_def normalizeInput_def parseRelativeKeywords_def
      pattern_defs rx_defs string_defs)

lemma iso_literal_eval:
  "parseNatural exampleHost ''2025-12-25T10:00:00Z'' \<lparr>defaultDate = None, strict = None\<rparr> =
     Inr \<lparr>date = Some (Date (Some 1766656800000)), confidence = 0.5,
          matched = ''2025-12-25T10:00:00Z'', remaining = []\<rparr>"
  by (simp add: parseNatural_def parsers_def normalizeInput_def parseRelativeKeywords_def
      parseRelativeTime_def parseWeekdays_def parseMonthReferences_def parseTimeExpressions_def
      pattern_defs rx_defs string_defs noMatch_def
      exampleHost_def NewDateOfString_def TimeClip_def)

theorem matched_remaining_reconstruct_witness:
  "parseNatural exampleHost ''tomorrow  extra'' \<lparr>defaultDate = None, strict = None\<rparr> =
     Inr \<lparr>date = Some (tomorrow exampleHost), confidence = 0.95, matched = ''tomorrow'',
          remaining = ''extra''\<rparr>
   \<and> (\<exists>ws. ''tomorrow'' @ ws @ ''extra'' = normalizeInput ''tomorrow  extra'')"
  using matched_remaining_reconstruct[OF tomorrow_extra_eval] tomorrow_extra_eval
  by auto

text \<open>
  C9 as stated fails twice. Two spaces after the keyword are more than a single
  separator; and in the fallback tier \<open>matched\<close> is the raw input, which differs from the
  normalized input as soon as the literal has a capital letter (the \<open>T\<close> and \<open>Z\<close> of the
  ECMAScript date-time format).
\<close>

theorem reconstruct_counterexample:
  "parseNatural exampleHost ''tomorrow  extra'' \<lparr>defaultDate = None, strict = None\<rparr> =
     Inr \<lparr>date = Some (tomorrow exampleHost), confidence = 0.95, matched = ''tomorrow'',
          remaining = ''extra''\<rparr>
   \<and> reconstruct ''tomorrow'' ''extra'' \<noteq> normalizeInput ''tomorrow  extra''
   \<and> parseNatural exampleHost ''2025-12-25T10:00:00Z'' \<lparr>defaultDate = None, strict = None\<rparr> =
     Inr \<lparr>date = Some (Date (Some 1766656800000)), confidence = 0.5,
          matched = ''2025-12-25T10:00:00Z'', remaining = []\<rparr>
   \<and> reconstruct ''2025-12-25T10:00:00Z'' [] \<noteq> normalizeInput ''2025-12-25T10:00:00Z''"
  using tomorrow_extra_eval iso_literal_eval
  by (simp add: reconstruct_def normalizeInput_def string_defs)


end
